theory Spec2Isabelle
  imports Main "HOL-Library.Word" "HOL-Library.AList"
begin

section \<open>Function-endpoint resolution of the stable-diffusion control plane\<close>

text \<open>
  A shallow embedding of the Go type \<open>FuncManager\<close> (package \<open>module\<close>) and of the
  part of package \<open>config\<close> it reads. One request is handled at a time: the read/write
  lock of the manager is not modelled, and neither is logging. A Go panic (a nil
  dereference, a failed type assertion, an index out of range, a write into a nil map) is
  the left summand of every result.
\<close>

subsection \<open>Go values\<close>

datatype panic = NilDereference | NilMapWrite | TypeAssertion | IndexOutOfRange

text \<open>\<open>int32\<close>, and \<open>float32\<close> by its bit pattern (the code only copies floats).\<close>

type_synonym int32 = "32 word"
type_synonym float32 = "32 word"

text \<open>\<open>map[string]*string\<close>: the entries of the map; a nil map is \<open>None\<close> where it can occur.\<close>

type_synonym env = "(string \<times> string option) list"

subsection \<open>Package config\<close>

datatype FlexMode = SingleFunc | MultiFunc

record Config =
  ServiceName :: string
  ServerName :: string
  FlexModeName :: string
  AccountId :: string
  cfgImage :: string
  CAPort :: int32
  cfgTimeout :: int32
  cfgCPU :: float32
  cfgGpuMemorySize :: int32
  ExtraArgs :: string
  DiskSize :: int32
  cfgMemorySize :: int32
  InstanceConcurrency :: int32
  cfgInstanceType :: string
  OtsInstanceName :: string
  OtsEndpoint :: string
  OssMode :: string
  OssEndpoint :: string
  Bucket :: string

definition GetFlexMode :: "Config \<Rightarrow> FlexMode" where
  "GetFlexMode c = (if FlexModeName c = ''singleFunc'' then SingleFunc else MultiFunc)"

definition MODEL_REFRESH_SIGNAL :: string where "MODEL_REFRESH_SIGNAL = ''MODEL_REFRESH_SIGNAL''"
definition MODEL_SD :: string where "MODEL_SD = ''SD_MODEL''"
definition SD_START_PARAMS :: string where "SD_START_PARAMS = ''EXTRA_ARGS''"
definition OTS_INSTANCE :: string where "OTS_INSTANCE = ''OTS_INSTANCE''"
definition OTS_ENDPOINT :: string where "OTS_ENDPOINT = ''OTS_ENDPOINT''"
definition OSS_ENDPOINT :: string where "OSS_ENDPOINT = ''OSS_ENDPOINT''"
definition OSS_BUCKET :: string where "OSS_BUCKET = ''OSS_BUCKET''"
definition REMOTE :: string where "REMOTE = ''remote''"
definition TRIGGER_TYPE :: string where "TRIGGER_TYPE = ''http''"
definition TRIGGER_NAME :: string where "TRIGGER_NAME = ''defaultTrigger''"
definition HTTP_GET :: string where "HTTP_GET = ''GET''"
definition HTTP_POST :: string where "HTTP_POST = ''POST''"
definition HTTP_PUT :: string where "HTTP_PUT = ''PUT''"
definition AUTH_TYPE :: string where "AUTH_TYPE = ''anonymous''"

subsection \<open>The persistent store\<close>

text \<open>
  Package \<open>datastore\<close> is not among the sources. Its column-name constants are an
  enumeration here, that is, pairwise distinct names. A stored value is an
  \<open>interface{}\<close>: a string, or something that is not a string.
\<close>

datatype column =
    KModelServiceKey | KModelServiceSdModel | KModelServiceFunctionName
  | KModelServiceEndPoint | KModelServiceCreateTime | KModelServiceLastModifyTime
  | KModelServerImage

datatype val = Str string | Num int

type_synonym row = "(column \<times> val) list"

text \<open>
  Modelled from the spec: the interface \<open>datastore.Datastore\<close>, of which the sources hold
  only the calls. The spec gives \<open>Get(key, columns) \<rightarrow> row or empty\<close>, \<open>Put(key, row)\<close> and
  \<open>ListAll(columns) \<rightarrow> rows\<close> over flat rows, with no transactions and no schema
  enforcement. The table lists the rows by primary key, in the order in which Go ranges
  over the map that \<open>ListAll\<close> returns (an order the runtime chooses). The calls of the
  code also return an error: \<open>faults s n\<close> says that the \<open>n\<close>-th operation on the store
  fails, and \<open>served\<close> counts the operations so far.
\<close>

record Datastore =
  table :: "(string \<times> row) list"
  faults :: "nat \<Rightarrow> bool"
  served :: nat

definition project :: "column list \<Rightarrow> row \<Rightarrow> row" where
  "project cols r = filter (\<lambda>(c, v). c \<in> set cols) r"

definition Get :: "Datastore \<Rightarrow> string \<Rightarrow> column list \<Rightarrow> (row \<times> string option) \<times> Datastore" where
  "Get s key cols =
     (let s' = s\<lparr>served := Suc (served s)\<rparr> in
      if faults s (served s) then (([], Some ''datastore: get failed''), s')
      else (case map_of (table s) key of
              None \<Rightarrow> (([], None), s')
            | Some r \<Rightarrow> ((project cols r, None), s')))"

definition Put :: "Datastore \<Rightarrow> string \<Rightarrow> row \<Rightarrow> string option \<times> Datastore" where
  "Put s key r =
     (let s' = s\<lparr>served := Suc (served s)\<rparr> in
      if faults s (served s) then (Some ''datastore: put failed'', s')
      else (None, s'\<lparr>table := AList.update key r (table s)\<rparr>))"

definition ListAll :: "Datastore \<Rightarrow> column list \<Rightarrow> ((string \<times> row) list \<times> string option) \<times> Datastore" where
  "ListAll s cols =
     (let s' = s\<lparr>served := Suc (served s)\<rparr> in
      if faults s (served s) then (([], Some ''datastore: list failed''), s')
      else ((map (\<lambda>(k, r). (k, project cols r)) (table s), None), s'))"

subsection \<open>The function-compute backend\<close>

text \<open>
  The two SDK clients (\<open>fc\<close> for the older generation, which names a service in every
  call, and \<open>fc3\<close>) are remote. A request struct is kept as the list of the fields the
  code sets.
\<close>

datatype field =
    FStr string | FInt int32 | FFloat float32 | FBool bool | FList "string list"
  | FEnv "env option" | FPtr "string option" | FObj "(string \<times> field) list"

type_synonym request = "(string \<times> field) list"

datatype call =
    FcCreateFunction string request string
  | FcCreateTrigger string string request
  | FcGetFunction string string
  | FcUpdateFunction string string request
  | Fc3CreateFunction request
  | Fc3CreateTrigger string request
  | Fc3GetFunction string
  | Fc3UpdateFunction string request

text \<open>
  The body of a \<open>GetFunctionResponse\<close>, with the fields the code reads. A pointer field
  the code dereferences is an option (\<open>None\<close> is nil); \<open>fcImage\<close> is nil when the
  container configuration or its image is. The fields the newer generation inherits are
  copied as they are.
\<close>

record FcFunctionBody =
  fcImage :: "string option"
  fcCpu :: "float32 option"
  fcMemorySize :: "int32 option"
  fcGpuMemorySize :: "int32 option"
  fcTimeout :: "int32 option"
  fcInstanceType :: "string option"
  fcEnvironmentVariables :: "env option"

record GPUConfig =
  GpuMemorySize :: "int32 option"
  GpuType :: "string option"

record Fc3FunctionBody =
  fc3Image :: "string option"
  fc3Cpu :: "float32 option"
  fc3MemorySize :: "int32 option"
  fc3GpuConfig :: "GPUConfig option"
  fc3Timeout :: "int32 option"
  fc3EnvironmentVariables :: "env option"
  fc3Role :: "string option"
  fc3VpcConfig :: "string option"
  fc3NasConfig :: "string option"
  fc3OssMountConfig :: "string option"

datatype FcFunc = FcGetFunctionResponse FcFunctionBody | Fc3GetFunctionResponse Fc3FunctionBody

text \<open>
  What the backend answers to a call may depend on every call made before it. An error
  is its message; for a trigger the answer is the error or the \<open>UrlInternet\<close> pointer.
\<close>

record Backend =
  createFunctionErr :: "call list \<Rightarrow> call \<Rightarrow> string option"
  createTriggerResp :: "call list \<Rightarrow> call \<Rightarrow> string + string option"
  getFunctionFc :: "call list \<Rightarrow> call \<Rightarrow> string + FcFunctionBody"
  getFunctionFc3 :: "call list \<Rightarrow> call \<Rightarrow> string + Fc3FunctionBody"
  updateFunctionErr :: "call list \<Rightarrow> call \<Rightarrow> string option"

text \<open>
  The deployment: the global configuration, the backend, and \<open>utils.Hash\<close>, which is not
  among the sources and is a parameter.
\<close>

record Platform =
  config :: Config
  Hash :: "string \<Rightarrow> string"
  backend :: Backend

subsection \<open>The manager\<close>

text \<open>
  The struct \<open>FuncManager\<close> with the part of the world it acts on: \<open>remote\<close> is the log of
  the calls made through its client, oldest first, and \<open>clock\<close> the time in
  milliseconds, which only \<open>time.Sleep\<close> advances here.
\<close>

record FuncManager =
  endpoints :: "string \<rightharpoonup> string list"
  funcStore :: Datastore
  lastInvokeEndpoint :: string
  remote :: "call list"
  clock :: nat

record FuncResource =
  resImage :: string
  resCPU :: float32
  resGpuMemorySize :: int32
  resInstanceType :: string
  resMemorySize :: int32
  resTimeout :: int32
  resEnv :: "env option"

definition RETRY_INTERVALMS :: nat where
  "RETRY_INTERVALMS = 10"

definition isFc3 :: "Platform \<Rightarrow> bool" where
  "isFc3 p = (ServiceName (config p) = '''')"

definition Sleep :: "nat \<Rightarrow> FuncManager \<Rightarrow> FuncManager" where
  "Sleep ms f = f\<lparr>clock := clock f + ms\<rparr>"

definition TimestampS :: "FuncManager \<Rightarrow> nat" where
  "TimestampS f = clock f div 1000"

fun digits :: "nat \<Rightarrow> string" where
  "digits n =
     (if n < 10 then [char_of (48 + n)]
      else digits (n div 10) @ [char_of (48 + n mod 10)])"

declare digits.simps [simp del]

definition GetFunctionName :: "Platform \<Rightarrow> string \<Rightarrow> string" where
  "GetFunctionName p key = ''sd_'' @ Hash p key"

definition getEnv :: "Platform \<Rightarrow> FuncManager \<Rightarrow> string \<Rightarrow> env" where
  "getEnv p f sdModel =
     (let env = [(SD_START_PARAMS, Some (ExtraArgs (config p))),
                 (MODEL_SD, Some sdModel),
                 (MODEL_REFRESH_SIGNAL, Some (digits (TimestampS f))),
                 (OTS_INSTANCE, Some (OtsInstanceName (config p))),
                 (OTS_ENDPOINT, Some (OtsEndpoint (config p)))]
      in if OssMode (config p) = REMOTE
         then AList.update OSS_BUCKET (Some (Bucket (config p)))
                (AList.update OSS_ENDPOINT (Some (OssEndpoint (config p))) env)
         else env)"

definition record_call :: "call \<Rightarrow> FuncManager \<Rightarrow> FuncManager" where
  "record_call c f = f\<lparr>remote := remote f @ [c]\<rparr>"



subsection \<open>The cache and the store\<close>

definition getEndpointFromCache :: "FuncManager \<Rightarrow> string \<Rightarrow> panic + string" where
  "getEndpointFromCache f key =
     (case endpoints f key of
        Some val \<Rightarrow> (case val of [] \<Rightarrow> Inl IndexOutOfRange | e # _ \<Rightarrow> Inr e)
      | None \<Rightarrow> Inr '''')"

text \<open>The type assertion \<open>data[c].(string)\<close>: \<open>None\<close> is the panic.\<close>

definition assert_string :: "row \<Rightarrow> column \<Rightarrow> string option" where
  "assert_string data c = (case map_of data c of Some (Str s) \<Rightarrow> Some s | _ \<Rightarrow> None)"

definition getEndpointFromDb :: "FuncManager \<Rightarrow> string \<Rightarrow> panic + (string \<times> FuncManager)" where
  "getEndpointFromDb f key =
     (case Get (funcStore f) key [KModelServiceSdModel, KModelServiceEndPoint] of
        ((data, err), s') \<Rightarrow>
          let f' = f\<lparr>funcStore := s'\<rparr> in
          if err = None \<and> data \<noteq> [] then
            (case assert_string data KModelServiceEndPoint of
               None \<Rightarrow> Inl TypeAssertion
             | Some endpoint \<Rightarrow>
                 (case assert_string data KModelServiceSdModel of
                    None \<Rightarrow> Inl TypeAssertion
                  | Some sdModel \<Rightarrow>
                      Inr (endpoint,
                           f'\<lparr>endpoints := (endpoints f')(key \<mapsto> [endpoint, sdModel])\<rparr>)))
          else Inr ('''', f'))"

definition putFunc :: "FuncManager \<Rightarrow> string \<Rightarrow> string \<Rightarrow> string \<Rightarrow> string \<Rightarrow> FuncManager" where
  "putFunc f key functionName sdModel endpoint =
     f\<lparr>funcStore := snd (Put (funcStore f) key
        [(KModelServiceKey, Str key),
         (KModelServiceSdModel, Str sdModel),
         (KModelServiceFunctionName, Str functionName),
         (KModelServiceEndPoint, Str endpoint),
         (KModelServiceCreateTime, Str (digits (TimestampS f))),
         (KModelServiceLastModifyTime, Str (digits (TimestampS f)))])\<rparr>"

fun loadFunc_rows :: "row list \<Rightarrow> FuncManager \<Rightarrow> panic + FuncManager" where
  "loadFunc_rows [] f = Inr f"
| "loadFunc_rows (data # rest) f =
     (case assert_string data KModelServiceKey of
        None \<Rightarrow> Inl TypeAssertion
      | Some key \<Rightarrow>
          (case assert_string data KModelServiceEndPoint of
             None \<Rightarrow> Inl TypeAssertion
           | Some endpoint \<Rightarrow>
               let f1 = (if lastInvokeEndpoint f = ''''
                         then f\<lparr>lastInvokeEndpoint := endpoint\<rparr> else f) in
               (case assert_string data KModelServiceSdModel of
                  None \<Rightarrow> Inl TypeAssertion
                | Some sdModel \<Rightarrow>
                    loadFunc_rows rest
                      (f1\<lparr>endpoints := (endpoints f1)(key \<mapsto> [endpoint, sdModel])\<rparr>))))"

definition loadFunc :: "FuncManager \<Rightarrow> panic + FuncManager" where
  "loadFunc f =
     (case ListAll (funcStore f)
             [KModelServiceKey, KModelServiceEndPoint, KModelServiceSdModel, KModelServerImage] of
        ((funcAll, err), s') \<Rightarrow> loadFunc_rows (map snd funcAll) (f\<lparr>funcStore := s'\<rparr>))"

text \<open>
  \<open>InitFuncManager\<close>: \<open>newClientErr\<close> is the error of the SDK's \<open>NewClient\<close>, \<open>now\<close> the time
  at start. The global manager is set before the client is made.
\<close>

definition InitFuncManager ::
  "Datastore \<Rightarrow> string option \<Rightarrow> nat \<Rightarrow> panic + (string option \<times> FuncManager)" where
  "InitFuncManager store newClientErr now =
     (let f = \<lparr>endpoints = Map.empty, funcStore = store, lastInvokeEndpoint = '''',
               remote = [], clock = now\<rparr> in
      case newClientErr of
        Some err \<Rightarrow> Inr (Some err, f)
      | None \<Rightarrow> (case loadFunc f of Inl x \<Rightarrow> Inl x | Inr f' \<Rightarrow> Inr (None, f')))"

subsection \<open>Provisioning\<close>

definition GetFcFunc :: "Platform \<Rightarrow> FuncManager \<Rightarrow> string \<Rightarrow> FcFunc option \<times> FuncManager" where
  "GetFcFunc p f functionName =
     (if isFc3 p then
        (let c = Fc3GetFunction functionName in
         case getFunctionFc3 (backend p) (remote f) c of
           Inr resp \<Rightarrow> (Some (Fc3GetFunctionResponse resp), record_call c f)
         | Inl err \<Rightarrow> (None, record_call c f))
      else
        (let serviceName = ServiceName (config p);
             c = FcGetFunction serviceName functionName in
         case getFunctionFc (backend p) (remote f) c of
           Inr resp \<Rightarrow> (Some (FcGetFunctionResponse resp), record_call c f)
         | Inl err \<Rightarrow> (None, record_call c f)))"

definition getCreateFuncRequest :: "Platform \<Rightarrow> string \<Rightarrow> env \<Rightarrow> request" where
  "getCreateFuncRequest p functionName env =
     [(''FunctionName'', FStr functionName),
      (''CaPort'', FInt (CAPort (config p))),
      (''Cpu'', FFloat (cfgCPU (config p))),
      (''Timeout'', FInt (cfgTimeout (config p))),
      (''InstanceType'', FStr (cfgInstanceType (config p))),
      (''Runtime'', FStr ''custom-container''),
      (''InstanceConcurrency'', FInt (InstanceConcurrency (config p))),
      (''MemorySize'', FInt (cfgMemorySize (config p))),
      (''DiskSize'', FInt (DiskSize (config p))),
      (''Handler'', FStr ''index.handler''),
      (''GpuMemorySize'', FInt (cfgGpuMemorySize (config p))),
      (''EnvironmentVariables'', FEnv (Some env)),
      (''CustomContainerConfig'',
         FObj [(''AccelerationType'', FStr ''Default''),
            (''Image'', FStr (cfgImage (config p))),
            (''WebServerMode'', FBool True)])]"

text \<open>The trigger configuration is kept as the map that the code marshals to JSON.\<close>

definition getHttpTrigger :: request where
  "getHttpTrigger =
     [(''TriggerName'', FStr TRIGGER_NAME),
      (''TriggerType'', FStr TRIGGER_TYPE),
      (''TriggerConfig'',
         FObj [(''authType'', FStr AUTH_TYPE), (''methods'', FList [HTTP_GET, HTTP_POST, HTTP_PUT])])]"

definition createFCFunction ::
  "Platform \<Rightarrow> FuncManager \<Rightarrow> string \<Rightarrow> string \<Rightarrow> env
     \<Rightarrow> panic + ((string \<times> string option) \<times> FuncManager)" where
  "createFCFunction p f serviceName functionName env =
     (let createRequest = getCreateFuncRequest p functionName env;
          c1 = FcCreateFunction serviceName createRequest (AccountId (config p)) in
      case createFunctionErr (backend p) (remote f) c1 of
        Some err \<Rightarrow> Inr (('''', Some err), record_call c1 f)
      | None \<Rightarrow>
          (let f1 = record_call c1 f;
               c2 = FcCreateTrigger serviceName functionName getHttpTrigger in
           case createTriggerResp (backend p) (remote f1) c2 of
             Inl err \<Rightarrow> Inr (('''', Some err), record_call c2 f1)
           | Inr UrlInternet \<Rightarrow>
               (case UrlInternet of
                  None \<Rightarrow> Inl NilDereference
                | Some url \<Rightarrow> Inr ((url, None), record_call c2 f1))))"

definition getCreateFuncRequestFc3 ::
  "Platform \<Rightarrow> FuncManager \<Rightarrow> string \<Rightarrow> env \<Rightarrow> panic + (request option \<times> FuncManager)" where
  "getCreateFuncRequestFc3 p f functionName env =
     (case GetFcFunc p f (ServerName (config p)) of
        (None, f1) \<Rightarrow> Inr (None, f1)
      | (Some (FcGetFunctionResponse b), f1) \<Rightarrow> Inl TypeAssertion
      | (Some (Fc3GetFunctionResponse curFunction), f1) \<Rightarrow>
          Inr (Some
            [(''FunctionName'', FStr functionName),
             (''Cpu'', FFloat (cfgCPU (config p))),
             (''Timeout'', FInt (cfgTimeout (config p))),
             (''Runtime'', FStr ''custom-container''),
             (''InstanceConcurrency'', FInt (InstanceConcurrency (config p))),
             (''MemorySize'', FInt (cfgMemorySize (config p))),
             (''DiskSize'', FInt (DiskSize (config p))),
             (''EnvironmentVariables'', FEnv (Some env)),
             (''Handler'', FStr ''index.handler''),
             (''CustomContainerConfig'',
                FObj [(''AccelerationType'', FStr ''Default''),
                   (''Image'', FStr (cfgImage (config p))),
                   (''Port'', FInt (CAPort (config p)))]),
             (''GpuConfig'',
                FObj [(''GpuMemorySize'', FInt (cfgGpuMemorySize (config p))),
                   (''GpuType'', FStr (cfgInstanceType (config p)))]),
             (''Role'', FPtr (fc3Role curFunction)),
             (''VpcConfig'', FPtr (fc3VpcConfig curFunction)),
             (''NasConfig'', FPtr (fc3NasConfig curFunction)),
             (''OssMountConfig'', FPtr (fc3OssMountConfig curFunction))], f1))"

definition getHttpTriggerFc3 :: request where
  "getHttpTriggerFc3 =
     [(''TriggerName'', FStr TRIGGER_NAME),
      (''TriggerType'', FStr TRIGGER_TYPE),
      (''TriggerConfig'',
         FObj [(''authType'', FStr AUTH_TYPE), (''methods'', FList [HTTP_GET, HTTP_POST, HTTP_PUT])])]"

definition createFc3Function ::
  "Platform \<Rightarrow> FuncManager \<Rightarrow> string \<Rightarrow> env
     \<Rightarrow> panic + ((string \<times> string option) \<times> FuncManager)" where
  "createFc3Function p f functionName env =
     (case getCreateFuncRequestFc3 p f functionName env of
        Inl x \<Rightarrow> Inl x
      | Inr (None, f1) \<Rightarrow> Inr (('''', Some ''get createFunctionRequest error''), f1)
      | Inr (Some createRequest, f1) \<Rightarrow>
          (let c1 = Fc3CreateFunction createRequest in
           case createFunctionErr (backend p) (remote f1) c1 of
             Some err \<Rightarrow> Inr (('''', Some err), record_call c1 f1)
           | None \<Rightarrow>
               (let f2 = record_call c1 f1;
                    c2 = Fc3CreateTrigger functionName getHttpTriggerFc3 in
                case createTriggerResp (backend p) (remote f2) c2 of
                  Inl err \<Rightarrow> Inr (('''', Some err), record_call c2 f2)
                | Inr UrlInternet \<Rightarrow>
                    (case UrlInternet of
                       None \<Rightarrow> Inl NilDereference
                     | Some url \<Rightarrow> Inr ((url, None), record_call c2 f2)))))"

text \<open>
  \<open>createFunc\<close>: in the else branch the code logs \<open>err.Error()\<close>, which dereferences a
  nil error when the backend gave no error and an empty endpoint.
\<close>

definition createFunc ::
  "Platform \<Rightarrow> FuncManager \<Rightarrow> string \<Rightarrow> string \<Rightarrow> env \<Rightarrow> panic + (string \<times> FuncManager)" where
  "createFunc p f key sdModel env =
     (let functionName = GetFunctionName p key in
      case (if isFc3 p then createFc3Function p f functionName env
            else createFCFunction p f (ServiceName (config p)) functionName env) of
        Inl x \<Rightarrow> Inl x
      | Inr ((endpoint, err), f1) \<Rightarrow>
          if err = None \<and> endpoint \<noteq> '''' then
            Inr (endpoint,
                 putFunc (f1\<lparr>endpoints := (endpoints f1)(key \<mapsto> [endpoint, sdModel])\<rparr>)
                   key functionName sdModel endpoint)
          else (case err of
                  None \<Rightarrow> Inl NilDereference
                | Some e \<Rightarrow> Inr ('''', f1)))"

subsection \<open>Resolution\<close>

text \<open>The lookup key that \<open>GetEndpoint\<close> computes first.\<close>

definition GetEndpoint_key :: "Platform \<Rightarrow> string \<Rightarrow> string" where
  "GetEndpoint_key p sdModel =
     (if GetFlexMode (config p) = MultiFunc \<and> sdModel \<noteq> '''' then sdModel else ''default'')"

text \<open>The retry loop of \<open>GetEndpoint\<close>, on the value of \<open>reTry\<close>.\<close>

fun GetEndpoint_retry ::
  "nat \<Rightarrow> Platform \<Rightarrow> string \<Rightarrow> string \<Rightarrow> FuncManager
     \<Rightarrow> panic + ((string \<times> string option) \<times> FuncManager)" where
  "GetEndpoint_retry 0 p key sdModel f = Inr (('''', Some ''not get sd endpoint''), f)"
| "GetEndpoint_retry (Suc reTry) p key sdModel f =
     (case getEndpointFromCache f key of
        Inl x \<Rightarrow> Inl x
      | Inr endpoint \<Rightarrow>
          if endpoint \<noteq> '''' then Inr ((endpoint, None), f\<lparr>lastInvokeEndpoint := endpoint\<rparr>)
          else
            (case getEndpointFromDb f key of
               Inl x \<Rightarrow> Inl x
             | Inr (endpoint, f1) \<Rightarrow>
                 if endpoint \<noteq> ''''
                 then Inr ((endpoint, None), f1\<lparr>lastInvokeEndpoint := endpoint\<rparr>)
                 else
                   (case createFunc p f1 key sdModel (getEnv p f1 sdModel) of
                      Inl x \<Rightarrow> Inl x
                    | Inr (endpoint, f2) \<Rightarrow>
                        if endpoint \<noteq> ''''
                        then Inr ((endpoint, None), f2\<lparr>lastInvokeEndpoint := endpoint\<rparr>)
                        else GetEndpoint_retry reTry p key sdModel
                               (Sleep RETRY_INTERVALMS f2))))"

definition GetEndpoint ::
  "Platform \<Rightarrow> FuncManager \<Rightarrow> string \<Rightarrow> panic + ((string \<times> string option) \<times> FuncManager)" where
  "GetEndpoint p f sdModel = GetEndpoint_retry 2 p (GetEndpoint_key p sdModel) sdModel f"

text \<open>\<open>GetLastInvokeEndpoint\<close>: the argument is a \<open>*string\<close>, \<open>None\<close> for nil.\<close>

definition GetLastInvokeEndpoint ::
  "FuncManager \<Rightarrow> string option \<Rightarrow> panic + (string \<times> FuncManager)" where
  "GetLastInvokeEndpoint f sdModel =
     (case sdModel of
        None \<Rightarrow> Inr (lastInvokeEndpoint f, f)
      | Some m \<Rightarrow>
          if m = '''' then Inr (lastInvokeEndpoint f, f)
          else (case getEndpointFromCache f m of
                  Inl x \<Rightarrow> Inl x
                | Inr endpoint \<Rightarrow>
                    if endpoint \<noteq> ''''
                    then Inr (endpoint, f\<lparr>lastInvokeEndpoint := endpoint\<rparr>)
                    else Inr (lastInvokeEndpoint f, f)))"

subsection \<open>Resource mutation\<close>

definition GetFuncResource ::
  "Platform \<Rightarrow> FuncManager \<Rightarrow> string \<Rightarrow> panic + (FuncResource option \<times> FuncManager)" where
  "GetFuncResource p f functionName =
     (case GetFcFunc p f functionName of
        (None, f1) \<Rightarrow> Inr (None, f1)
      | (Some (FcGetFunctionResponse info), f1) \<Rightarrow>
          (case (fcImage info, fcCpu info, fcMemorySize info, fcGpuMemorySize info,
                 fcTimeout info, fcInstanceType info) of
             (Some img, Some cpu, Some memorySize, Some gpuMemorySize,
              Some timeout, Some instanceType) \<Rightarrow>
               Inr (Some \<lparr>resImage = img, resCPU = cpu, resGpuMemorySize = gpuMemorySize,
                          resInstanceType = instanceType, resMemorySize = memorySize,
                          resTimeout = timeout, resEnv = fcEnvironmentVariables info\<rparr>, f1)
           | _ \<Rightarrow> Inl NilDereference)
      | (Some (Fc3GetFunctionResponse info), f1) \<Rightarrow>
          (case (fc3Image info, fc3Cpu info, fc3MemorySize info,
                 case fc3GpuConfig info of None \<Rightarrow> None | Some g \<Rightarrow> GpuMemorySize g,
                 fc3Timeout info,
                 case fc3GpuConfig info of None \<Rightarrow> None | Some g \<Rightarrow> GpuType g) of
             (Some img, Some cpu, Some memorySize, Some gpuMemorySize,
              Some timeout, Some gpuType) \<Rightarrow>
               Inr (Some \<lparr>resImage = img, resCPU = cpu, resGpuMemorySize = gpuMemorySize,
                          resInstanceType = gpuType, resMemorySize = memorySize,
                          resTimeout = timeout, resEnv = fc3EnvironmentVariables info\<rparr>, f1)
           | _ \<Rightarrow> Inl NilDereference))"

definition UpdateFunctionEnv ::
  "Platform \<Rightarrow> FuncManager \<Rightarrow> string \<Rightarrow> panic + (string option \<times> FuncManager)" where
  "UpdateFunctionEnv p f key =
     (let functionName = GetFunctionName p key in
      case GetFuncResource p f functionName of
        Inl x \<Rightarrow> Inl x
      | Inr (None, f1) \<Rightarrow> Inr (None, f1)
      | Inr (Some res, f1) \<Rightarrow>
          (case resEnv res of
             None \<Rightarrow> Inl NilMapWrite
           | Some env0 \<Rightarrow>
               (let env = AList.update MODEL_REFRESH_SIGNAL
                            (Some (digits (TimestampS f1))) env0;
                    c = (if isFc3 p then
                           Fc3UpdateFunction functionName
                             [(''Runtime'', FStr ''custom-container''),
                              (''EnvironmentVariables'', FEnv (Some env)),
                              (''GpuConfig'',
                                 FObj [(''GpuMemorySize'', FInt (resGpuMemorySize res)),
                                    (''GpuType'', FStr (resInstanceType res))])]
                         else
                           FcUpdateFunction (ServiceName (config p)) functionName
                             [(''Runtime'', FStr ''custom-container''),
                              (''GpuMemorySize'', FInt (resGpuMemorySize res)),
                              (''EnvironmentVariables'', FEnv (Some env))])
                in Inr (updateFunctionErr (backend p) (remote f1) c, record_call c f1))))"

text \<open>
  The loop of \<open>UpdateAllFunctionEnv\<close> over the keys of the cache; it returns at the first
  error.
\<close>

fun UpdateAllFunctionEnv_keys ::
  "Platform \<Rightarrow> string list \<Rightarrow> FuncManager \<Rightarrow> panic + (string option \<times> FuncManager)" where
  "UpdateAllFunctionEnv_keys p [] f = Inr (None, f)"
| "UpdateAllFunctionEnv_keys p (key # rest) f =
     (case UpdateFunctionEnv p f key of
        Inl x \<Rightarrow> Inl x
      | Inr (Some err, f1) \<Rightarrow> Inr (Some err, f1)
      | Inr (None, f1) \<Rightarrow> UpdateAllFunctionEnv_keys p rest f1)"

text \<open>
  \<open>UpdateAllFunctionEnv\<close>: \<open>keys\<close> lists the keys of the reloaded cache in the order in
  which the runtime ranges over the map.
\<close>

definition UpdateAllFunctionEnv ::
  "Platform \<Rightarrow> string list \<Rightarrow> FuncManager \<Rightarrow> panic + (string option \<times> FuncManager)" where
  "UpdateAllFunctionEnv p keys f =
     (case loadFunc f of
        Inl x \<Rightarrow> Inl x
      | Inr f1 \<Rightarrow> UpdateAllFunctionEnv_keys p keys f1)"

definition updateResourceCall :: "Platform \<Rightarrow> string \<Rightarrow> FuncResource \<Rightarrow> call" where
  "updateResourceCall p functionName resource =
     (if isFc3 p then
        Fc3UpdateFunction functionName
          [(''Runtime'', FStr ''custom-container''),
           (''MemorySize'', FInt (resMemorySize resource)),
           (''Cpu'', FFloat (resCPU resource)),
           (''GpuConfig'',
              FObj [(''GpuType'', FStr (resInstanceType resource)),
                 (''GpuMemorySize'', FInt (resGpuMemorySize resource))]),
           (''Timeout'', FInt (resTimeout resource)),
           (''CustomContainerConfig'', FObj [(''Image'', FStr (resImage resource))]),
           (''EnvironmentVariables'', FEnv (resEnv resource))]
      else
        FcUpdateFunction (ServiceName (config p)) functionName
          [(''Runtime'', FStr ''custom-container''),
           (''GpuMemorySize'', FInt (resGpuMemorySize resource)),
           (''MemorySize'', FInt (resMemorySize resource)),
           (''Cpu'', FFloat (resCPU resource)),
           (''InstanceType'', FStr (resInstanceType resource)),
           (''Timeout'', FInt (resTimeout resource)),
           (''CustomContainerConfig'', FObj [(''Image'', FStr (resImage resource))]),
           (''EnvironmentVariables'', FEnv (resEnv resource))])"

text \<open>
  The loop of \<open>UpdateFunctionResource\<close> with its three result slices. The argument lists
  the entries of the map in the order in which the runtime ranges over them; a value is a
  \<open>*FuncResource\<close>, \<open>None\<close> for nil.
\<close>

fun UpdateFunctionResource_loop ::
  "Platform \<Rightarrow> (string \<times> FuncResource option) list \<Rightarrow> string list \<Rightarrow> string list \<Rightarrow> string list
     \<Rightarrow> FuncManager \<Rightarrow> panic + ((string list \<times> string list \<times> string list) \<times> FuncManager)" where
  "UpdateFunctionResource_loop p [] success fail errs f = Inr ((success, fail, errs), f)"
| "UpdateFunctionResource_loop p ((key, resource) # rest) success fail errs f =
     (let functionName = GetFunctionName p key in
      case resource of
        None \<Rightarrow> Inl NilDereference
      | Some r \<Rightarrow>
          (let c = updateResourceCall p functionName r in
           case updateFunctionErr (backend p) (remote f) c of
             Some err \<Rightarrow>
               UpdateFunctionResource_loop p rest success (fail @ [functionName]) (errs @ [err])
                 (record_call c f)
           | None \<Rightarrow>
               UpdateFunctionResource_loop p rest (success @ [key]) fail errs
                 (record_call c f)))"

definition UpdateFunctionResource ::
  "Platform \<Rightarrow> FuncManager \<Rightarrow> (string \<times> FuncResource option) list
     \<Rightarrow> panic + ((string list \<times> string list \<times> string list) \<times> FuncManager)" where
  "UpdateFunctionResource p f resources = UpdateFunctionResource_loop p resources [] [] [] f"

subsection \<open>Observations\<close>

text \<open>
  The create-function calls in the log count the provisioning attempts that reached the
  backend.
\<close>

fun isCreateFunction :: "call \<Rightarrow> bool" where
  "isCreateFunction (FcCreateFunction s r h) = True"
| "isCreateFunction (Fc3CreateFunction r) = True"
| "isCreateFunction c = False"

definition provisionings :: "FuncManager \<Rightarrow> nat" where
  "provisionings f = length (filter isCreateFunction (remote f))"

text \<open>The invariant of the cache: every value is a slice of two strings.\<close>

definition cache_ok :: "FuncManager \<Rightarrow> bool" where
  "cache_ok f = (\<forall>key val. endpoints f key = Some val \<longrightarrow> length val = 2)"

text \<open>The manager after one more operation on its store that left the table as it was.\<close>

definition asked :: "FuncManager \<Rightarrow> FuncManager" where
  "asked f = f\<lparr>funcStore := (funcStore f)\<lparr>served := Suc (served (funcStore f))\<rparr>\<rparr>"

text \<open>What the backend answers to a sequence of update calls made after the calls \<open>h\<close>.\<close>

fun replies :: "Backend \<Rightarrow> call list \<Rightarrow> call list \<Rightarrow> string option list" where
  "replies b h [] = []"
| "replies b h (c # cs) = updateFunctionErr b h c # replies b (h @ [c]) cs"

text \<open>
  What a reload of the cache amounts to: each listed row binds its key to its endpoint and
  model, later rows over earlier ones, and the first non-empty endpoint becomes the last-used
  endpoint of a manager that has none. A store that fails the listing lists nothing.
\<close>

fun first_endpoint :: "row list \<Rightarrow> string" where
  "first_endpoint [] = []"
| "first_endpoint (r # rs) =
     (case assert_string r KModelServiceEndPoint of
        Some e \<Rightarrow> if e \<noteq> [] then e else first_endpoint rs
      | None \<Rightarrow> first_endpoint rs)"

definition bind_row :: "row \<Rightarrow> (string \<rightharpoonup> string list) \<Rightarrow> (string \<rightharpoonup> string list)" where
  "bind_row r c =
     c(the (assert_string r KModelServiceKey) \<mapsto>
         [the (assert_string r KModelServiceEndPoint), the (assert_string r KModelServiceSdModel)])"

definition listed :: "Datastore \<Rightarrow> row list" where
  "listed s = (if faults s (served s) then [] else map snd (table s))"

text \<open>The function names of the get-function calls in a log, in order.\<close>

fun getName :: "call \<Rightarrow> string option" where
  "getName (FcGetFunction s n) = Some n"
| "getName (Fc3GetFunction n) = Some n"
| "getName c = None"

definition reads :: "call list \<Rightarrow> string list" where
  "reads cs = List.map_filter getName cs"

text \<open>
  The update calls that \<open>UpdateFunctionResource\<close> makes for its entries, and what the three
  result slices hold given the backend's replies to them: the keys of the accepted entries,
  the function names of the rejected ones, and the messages of the rejections.
\<close>

definition updateCalls :: "Platform \<Rightarrow> (string \<times> FuncResource option) list \<Rightarrow> call list" where
  "updateCalls p resources =
     map (\<lambda>(key, r). updateResourceCall p (GetFunctionName p key) (the r)) resources"

definition accepted :: "(string \<times> FuncResource option) list \<Rightarrow> string option list \<Rightarrow> string list" where
  "accepted resources rs =
     map (\<lambda>(kr, reply). fst kr) (filter (\<lambda>(kr, reply). reply = None) (zip resources rs))"

definition rejected ::
  "Platform \<Rightarrow> (string \<times> FuncResource option) list \<Rightarrow> string option list \<Rightarrow> string list" where
  "rejected p resources rs =
     map (\<lambda>(kr, reply). GetFunctionName p (fst kr))
       (filter (\<lambda>(kr, reply). reply \<noteq> None) (zip resources rs))"

definition messages :: "string option list \<Rightarrow> string list" where
  "messages rs = map the (filter (\<lambda>reply. reply \<noteq> None) rs)"

subsection \<open>An example deployment\<close>

text \<open>
  An example deployment on the older backend generation in multi-function mode, with a
  backend that accepts every call, and a manager with an empty cache over an empty store.
\<close>

definition exampleConfig :: Config where
  "exampleConfig =
     \<lparr>ServiceName = ''sd-service'', ServerName = ''sd-proxy'', FlexModeName = ''multiFunc'',
      AccountId = ''1234'', cfgImage = ''registry/sd:v1'', CAPort = 7861, cfgTimeout = 600,
      cfgCPU = 8, cfgGpuMemorySize = 16384, ExtraArgs = ''--api'', DiskSize = 512,
      cfgMemorySize = 32768, InstanceConcurrency = 1, cfgInstanceType = ''fc.gpu.tesla.1'',
      OtsInstanceName = ''sd'', OtsEndpoint = ''ots'', OssMode = ''local'',
      OssEndpoint = ''oss'', Bucket = ''bucket''\<rparr>"

definition exampleBody :: FcFunctionBody where
  "exampleBody =
     \<lparr>fcImage = Some ''registry/sd:v1'', fcCpu = Some 8, fcMemorySize = Some 32768,
      fcGpuMemorySize = Some 16384, fcTimeout = Some 600,
      fcInstanceType = Some ''fc.gpu.tesla.1'', fcEnvironmentVariables = Some []\<rparr>"

definition exampleBody3 :: Fc3FunctionBody where
  "exampleBody3 =
     \<lparr>fc3Image = Some ''registry/sd:v1'', fc3Cpu = Some 8, fc3MemorySize = Some 32768,
      fc3GpuConfig = Some \<lparr>GpuMemorySize = Some 16384, GpuType = Some ''fc.gpu.tesla.1''\<rparr>,
      fc3Timeout = Some 600, fc3EnvironmentVariables = Some [],
      fc3Role = Some ''role'', fc3VpcConfig = None, fc3NasConfig = None,
      fc3OssMountConfig = None\<rparr>"

definition exampleBackend :: Backend where
  "exampleBackend =
     \<lparr>createFunctionErr = (\<lambda>h c. None),
      createTriggerResp = (\<lambda>h c. Inr (Some ''http://e'')),
      getFunctionFc = (\<lambda>h c. Inr exampleBody),
      getFunctionFc3 = (\<lambda>h c. Inr exampleBody3),
      updateFunctionErr = (\<lambda>h c. None)\<rparr>"

definition examplePlatform :: Platform where
  "examplePlatform = \<lparr>config = exampleConfig, Hash = (\<lambda>key. key), backend = exampleBackend\<rparr>"

definition exampleStore :: Datastore where
  "exampleStore = \<lparr>table = [], faults = (\<lambda>n. False), served = 0\<rparr>"

definition exampleManager :: FuncManager where
  "exampleManager =
     \<lparr>endpoints = Map.empty, funcStore = exampleStore, lastInvokeEndpoint = '''',
      remote = [], clock = 0\<rparr>"

definition exampleResource :: FuncResource where
  "exampleResource =
     \<lparr>resImage = ''registry/sd:v2'', resCPU = 8, resGpuMemorySize = 16384,
      resInstanceType = ''fc.gpu.tesla.1'', resMemorySize = 32768, resTimeout = 600,
      resEnv = Some []\<rparr>"

text \<open>A row as \<open>putFunc\<close> writes it.\<close>

definition exampleRow :: row where
  "exampleRow =
     [(KModelServiceKey, Str ''modelA''), (KModelServiceSdModel, Str ''modelA''),
      (KModelServiceFunctionName, Str ''sd_modelA''), (KModelServiceEndPoint, Str ''http://a''),
      (KModelServiceCreateTime, Str ''0''), (KModelServiceLastModifyTime, Str ''0'')]"

section \<open>Properties\<close>

subsection \<open>Evaluating the example\<close>

lemmas example_defs =
  exampleConfig_def exampleBody_def exampleBody3_def exampleBackend_def examplePlatform_def
  exampleStore_def exampleManager_def exampleResource_def exampleRow_def

lemmas resolve_defs =
  GetEndpoint_def GetEndpoint_key_def GetFlexMode_def getEndpointFromCache_def
  getEndpointFromDb_def Get_def Put_def createFunc_def createFCFunction_def
  createFc3Function_def getCreateFuncRequestFc3_def GetFcFunc_def isFc3_def record_call_def
  putFunc_def Sleep_def GetFunctionName_def Let_def numeral_2_eq_2 digits.simps


subsection \<open>What one provisioning attempt and one store lookup change\<close>

lemma createFCFunction_shape:
  assumes "createFCFunction p f s n env = Inr ((e, err), f')"
  shows "\<exists>cs. f' = f\<lparr>remote := remote f @ cs\<rparr> \<and> length (filter isCreateFunction cs) = 1"
    and "err \<noteq> None \<Longrightarrow> e = ''''"
  using assms
  unfolding createFCFunction_def Let_def record_call_def
  by (auto split: option.splits sum.splits intro: exI[of _ "[_]"] exI[of _ "[_, _]"])

lemma GetFcFunc_shape:
  assumes "GetFcFunc p f n = (r, f')"
  shows "\<exists>c. f' = f\<lparr>remote := remote f @ [c]\<rparr> \<and> \<not> isCreateFunction c"
  using assms
  unfolding GetFcFunc_def Let_def record_call_def
  by (auto split: sum.splits if_splits)

lemma getCreateFuncRequestFc3_shape:
  assumes "getCreateFuncRequestFc3 p f n env = Inr (r, f')"
  shows "\<exists>c. f' = f\<lparr>remote := remote f @ [c]\<rparr> \<and> \<not> isCreateFunction c"
proof -
  obtain r0 f0 where g: "GetFcFunc p f (ServerName (config p)) = (r0, f0)"
    by (cases "GetFcFunc p f (ServerName (config p))")
  from assms g have "f' = f0"
    unfolding getCreateFuncRequestFc3_def
    by (simp split: option.splits FcFunc.splits)
  with GetFcFunc_shape[OF g] show ?thesis by simp
qed

lemma createFc3Function_shape:
  assumes "createFc3Function p f n env = Inr ((e, err), f')"
  shows "\<exists>cs. f' = f\<lparr>remote := remote f @ cs\<rparr> \<and> length (filter isCreateFunction cs) \<le> 1
           \<and> (err = None \<longrightarrow> length (filter isCreateFunction cs) = 1)"
    and "err \<noteq> None \<Longrightarrow> e = ''''"
proof -
  obtain r0 f0 where g: "getCreateFuncRequestFc3 p f n env = Inr (r0, f0)"
    using assms unfolding createFc3Function_def
    by (cases "getCreateFuncRequestFc3 p f n env") auto
  from getCreateFuncRequestFc3_shape[OF g] obtain c
    where c: "f0 = f\<lparr>remote := remote f @ [c]\<rparr>" "\<not> isCreateFunction c" by blast
  from assms g
  have "(\<exists>cs. f' = f0\<lparr>remote := remote f0 @ cs\<rparr> \<and> length (filter isCreateFunction cs) \<le> 1
           \<and> (err = None \<longrightarrow> length (filter isCreateFunction cs) = 1)) \<and> (err \<noteq> None \<longrightarrow> e = '''')"
    unfolding createFc3Function_def Let_def record_call_def
    by (auto split: option.splits sum.splits intro: exI[of _ "[]"] exI[of _ "[_]"] exI[of _ "[_, _]"])
  then obtain cs where cs: "f' = f0\<lparr>remote := remote f0 @ cs\<rparr>"
     "length (filter isCreateFunction cs) \<le> 1" "err = None \<longrightarrow> length (filter isCreateFunction cs) = 1"
     and e: "err \<noteq> None \<longrightarrow> e = ''''" by blast
  have "f' = f\<lparr>remote := remote f @ (c # cs)\<rparr>" using c cs by simp
  moreover have "length (filter isCreateFunction (c # cs)) \<le> 1" using c cs by simp
  moreover have "err = None \<longrightarrow> length (filter isCreateFunction (c # cs)) = 1" using c cs by simp
  ultimately show "\<exists>cs. f' = f\<lparr>remote := remote f @ cs\<rparr> \<and> length (filter isCreateFunction cs) \<le> 1
           \<and> (err = None \<longrightarrow> length (filter isCreateFunction cs) = 1)" by blast
  show "err \<noteq> None \<Longrightarrow> e = ''''" using e by simp
qed


lemma provision_shape:
  assumes "(if isFc3 p then createFc3Function p f n env
            else createFCFunction p f s n env) = Inr ((e, err), f1)"
  shows "\<exists>cs. f1 = f\<lparr>remote := remote f @ cs\<rparr> \<and> length (filter isCreateFunction cs) \<le> 1
           \<and> (err = None \<longrightarrow> length (filter isCreateFunction cs) = 1)"
    and "err \<noteq> None \<Longrightarrow> e = []"
proof -
  show "\<exists>cs. f1 = f\<lparr>remote := remote f @ cs\<rparr> \<and> length (filter isCreateFunction cs) \<le> 1
           \<and> (err = None \<longrightarrow> length (filter isCreateFunction cs) = 1)"
  proof (cases "isFc3 p")
    case True
    with assms have "createFc3Function p f n env = Inr ((e, err), f1)" by simp
    from createFc3Function_shape(1)[OF this] show ?thesis .
  next
    case False
    with assms have "createFCFunction p f s n env = Inr ((e, err), f1)" by simp
    from createFCFunction_shape(1)[OF this] show ?thesis by auto
  qed
  show "err \<noteq> None \<Longrightarrow> e = []"
    using assms createFc3Function_shape(2) createFCFunction_shape(2)
    by (cases "isFc3 p") auto
qed

lemma createFunc_fail:
  assumes "createFunc p f key m env = Inr ([], f')"
  shows "\<exists>cs. f' = f\<lparr>remote := remote f @ cs\<rparr> \<and> length (filter isCreateFunction cs) \<le> 1"
proof -
  let ?prov = "if isFc3 p then createFc3Function p f (GetFunctionName p key) env
            else createFCFunction p f (ServiceName (config p)) (GetFunctionName p key) env"
  from assms obtain e err f1 where pr: "?prov = Inr ((e, err), f1)"
    unfolding createFunc_def Let_def by (cases ?prov) auto
  from assms pr have "f' = f1"
    unfolding createFunc_def Let_def by (simp split: if_splits option.splits)
  with provision_shape(1)[OF pr] show ?thesis by blast
qed

lemma createFunc_ok:
  assumes "createFunc p f key m env = Inr (e, f')" and "e \<noteq> []"
  shows "\<exists>cs. f' = f\<lparr>remote := remote f @ cs,
                      endpoints := (endpoints f)(key \<mapsto> [e, m]),
                      funcStore := snd (Put (funcStore f) key
                        [(KModelServiceKey, Str key),
                         (KModelServiceSdModel, Str m),
                         (KModelServiceFunctionName, Str (GetFunctionName p key)),
                         (KModelServiceEndPoint, Str e),
                         (KModelServiceCreateTime, Str (digits (TimestampS f))),
                         (KModelServiceLastModifyTime, Str (digits (TimestampS f)))])\<rparr>
            \<and> length (filter isCreateFunction cs) = 1"
proof -
  let ?prov = "if isFc3 p then createFc3Function p f (GetFunctionName p key) env
            else createFCFunction p f (ServiceName (config p)) (GetFunctionName p key) env"
  from assms obtain e0 err f1 where pr: "?prov = Inr ((e0, err), f1)"
    unfolding createFunc_def Let_def by (cases ?prov) auto
  from assms pr have ok: "err = None" "e0 = e"
    and f': "f' = putFunc (f1\<lparr>endpoints := (endpoints f1)(key \<mapsto> [e, m])\<rparr>)
                   key (GetFunctionName p key) m e"
    unfolding createFunc_def Let_def by (auto split: if_splits option.splits)
  from provision_shape(1)[OF pr] ok obtain cs
    where cs: "f1 = f\<lparr>remote := remote f @ cs\<rparr>" "length (filter isCreateFunction cs) = 1"
    by blast
  have "f' = f\<lparr>remote := remote f @ cs,
                      endpoints := (endpoints f)(key \<mapsto> [e, m]),
                      funcStore := snd (Put (funcStore f) key
                        [(KModelServiceKey, Str key),
                         (KModelServiceSdModel, Str m),
                         (KModelServiceFunctionName, Str (GetFunctionName p key)),
                         (KModelServiceEndPoint, Str e),
                         (KModelServiceCreateTime, Str (digits (TimestampS f))),
                         (KModelServiceLastModifyTime, Str (digits (TimestampS f)))])\<rparr>"
    unfolding f' cs(1) by (simp add: putFunc_def TimestampS_def)
  with cs(2) show ?thesis by blast
qed

lemma getEndpointFromDb_shape:
  assumes "getEndpointFromDb f key = Inr (e, f')"
  shows "(f' = asked f \<and> e = [])
          \<or> (\<exists>m. f' = (asked f)\<lparr>endpoints := (endpoints f)(key \<mapsto> [e, m])\<rparr>)"
  using assms
  unfolding getEndpointFromDb_def Get_def Let_def asked_def
  by (auto split: option.splits if_splits)

lemma getEndpointFromDb_miss:
  assumes "map_of (table (funcStore f)) key = None \<or> faults (funcStore f) (served (funcStore f))"
  shows "getEndpointFromDb f key =
           Inr ([], asked f)"
  using assms
  unfolding getEndpointFromDb_def Get_def Let_def asked_def
  by auto

subsection \<open>The attempts of the retry loop\<close>

lemma GetEndpoint_retry_Suc_cases:
  assumes "GetEndpoint_retry (Suc n) p key m f = Inr (res, f')"
  obtains
    (hit) e where "getEndpointFromCache f key = Inr e" "e \<noteq> []" "res = (e, None)"
      "f' = f\<lparr>lastInvokeEndpoint := e\<rparr>"
  | (stored) e f1 where "getEndpointFromCache f key = Inr []"
      "getEndpointFromDb f key = Inr (e, f1)" "e \<noteq> []" "res = (e, None)"
      "f' = f1\<lparr>lastInvokeEndpoint := e\<rparr>"
  | (created) e f1 f2 where "getEndpointFromCache f key = Inr []"
      "getEndpointFromDb f key = Inr ([], f1)"
      "createFunc p f1 key m (getEnv p f1 m) = Inr (e, f2)" "e \<noteq> []" "res = (e, None)"
      "f' = f2\<lparr>lastInvokeEndpoint := e\<rparr>"
  | (again) f1 f2 where "getEndpointFromCache f key = Inr []"
      "getEndpointFromDb f key = Inr ([], f1)"
      "createFunc p f1 key m (getEnv p f1 m) = Inr ([], f2)"
      "GetEndpoint_retry n p key m (Sleep RETRY_INTERVALMS f2) = Inr (res, f')"
proof -
  from assms obtain e0 where c: "getEndpointFromCache f key = Inr e0"
    by (cases "getEndpointFromCache f key") auto
  show thesis
  proof (cases "e0 = []")
    case False
    with assms c show thesis by (intro hit[of e0]) auto
  next
    case True
    note e0 = this
    from assms c e0 obtain e1 f1 where d: "getEndpointFromDb f key = Inr (e1, f1)"
      by (cases "getEndpointFromDb f key") auto
    show thesis
    proof (cases "e1 = []")
      case False
      with assms c e0 d show thesis by (intro stored[of e1 f1]) auto
    next
      case True
      note e1 = this
      from assms c e0 d e1 obtain e2 f2
        where k: "createFunc p f1 key m (getEnv p f1 m) = Inr (e2, f2)"
        by (cases "createFunc p f1 key m (getEnv p f1 m)") auto
      show thesis
      proof (cases "e2 = []")
        case False
        with assms c e0 d e1 k show thesis by (intro created[of f1 e2 f2]) auto
      next
        case True
        with assms c e0 d e1 k show thesis by (intro again[of f1 f2]) auto
      qed
    qed
  qed
qed

lemma getEndpointFromCache_hit:
  "getEndpointFromCache f key = Inr e \<Longrightarrow> e \<noteq> [] \<Longrightarrow> \<exists>r. endpoints f key = Some (e # r)"
  by (auto simp: getEndpointFromCache_def split: option.splits list.splits)

lemma getEndpointFromCache_bound:
  "endpoints f key = Some (e # r) \<Longrightarrow> getEndpointFromCache f key = Inr e"
  by (simp add: getEndpointFromCache_def)

lemma getEndpointFromDb_fields:
  assumes "getEndpointFromDb f key = Inr (e, f1)"
  shows "funcStore f1 = (funcStore f)\<lparr>served := Suc (served (funcStore f))\<rparr>"
    and "remote f1 = remote f" and "clock f1 = clock f"
    and "lastInvokeEndpoint f1 = lastInvokeEndpoint f"
    and "k \<noteq> key \<Longrightarrow> endpoints f1 k = endpoints f k"
    and "endpoints f1 key = endpoints f key \<or> (\<exists>m. endpoints f1 key = Some [e, m])"
    and "e \<noteq> [] \<Longrightarrow> \<exists>m. endpoints f1 key = Some [e, m]"
  using getEndpointFromDb_shape[OF assms] by (auto simp: asked_def)

lemma createFunc_fail_fields:
  assumes "createFunc p f key m env = Inr ([], f')"
  shows "funcStore f' = funcStore f" and "endpoints f' = endpoints f"
    and "clock f' = clock f" and "lastInvokeEndpoint f' = lastInvokeEndpoint f"
    and "provisionings f \<le> provisionings f'" and "provisionings f' \<le> Suc (provisionings f)"
  using createFunc_fail[OF assms] by (auto simp: provisionings_def)

lemma createFunc_ok_fields:
  assumes "createFunc p f key m env = Inr (e, f')" and "e \<noteq> []"
  shows "endpoints f' = (endpoints f)(key \<mapsto> [e, m])"
    and "clock f' = clock f" and "lastInvokeEndpoint f' = lastInvokeEndpoint f"
    and "provisionings f' = Suc (provisionings f)"
    and "funcStore f' = snd (Put (funcStore f) key
                        [(KModelServiceKey, Str key),
                         (KModelServiceSdModel, Str m),
                         (KModelServiceFunctionName, Str (GetFunctionName p key)),
                         (KModelServiceEndPoint, Str e),
                         (KModelServiceCreateTime, Str (digits (TimestampS f))),
                         (KModelServiceLastModifyTime, Str (digits (TimestampS f)))])"
  using createFunc_ok[OF assms] by (auto simp: provisionings_def)

lemma table_Put_other:
  "k \<noteq> key \<Longrightarrow> map_of (table (snd (Put s key r))) k = map_of (table s) k"
  by (simp add: Put_def Let_def update_conv')

lemma GetEndpoint_retry_frame:
  assumes "GetEndpoint_retry n p key m f = Inr (res, f')" and "k \<noteq> key"
  shows "endpoints f' k = endpoints f k
       \<and> map_of (table (funcStore f')) k = map_of (table (funcStore f)) k"
  using assms
proof (induction n arbitrary: f)
  case 0
  then show ?case by simp
next
  case (Suc n)
  from Suc.prems(1) show ?case
  proof (cases rule: GetEndpoint_retry_Suc_cases)
    case (hit e)
    then show ?thesis by simp
  next
    case (stored e f1)
    with getEndpointFromDb_fields[OF stored(2)] Suc.prems(2) show ?thesis by simp
  next
    case (created e f1 f2)
    with getEndpointFromDb_fields[OF created(2)] createFunc_ok_fields[OF created(3,4)]
      Suc.prems(2) show ?thesis by (simp add: table_Put_other)
  next
    case (again f1 f2)
    from Suc.IH[OF again(4) Suc.prems(2)]
      getEndpointFromDb_fields[OF again(2)] createFunc_fail_fields[OF again(3)] Suc.prems(2)
    show ?thesis by (simp add: Sleep_def)
  qed
qed

lemma GetEndpoint_retry_success:
  assumes "GetEndpoint_retry n p key m f = Inr ((e, None), f')"
  shows "e \<noteq> [] \<and> lastInvokeEndpoint f' = e \<and> (\<exists>r. endpoints f' key = Some (e # r))"
  using assms
proof (induction n arbitrary: f)
  case 0
  then show ?case by simp
next
  case (Suc n)
  from Suc.prems(1) show ?case
  proof (cases rule: GetEndpoint_retry_Suc_cases)
    case (hit e0)
    with getEndpointFromCache_hit[OF hit(1,2)] show ?thesis by auto
  next
    case (stored e0 f1)
    with getEndpointFromDb_fields(7)[OF stored(2,3)] show ?thesis by auto
  next
    case (created e0 f1 f2)
    with createFunc_ok_fields[OF created(3,4)] show ?thesis by auto
  next
    case (again f1 f2)
    from Suc.IH[OF again(4)] show ?thesis .
  qed
qed


lemma GetEndpoint_retry_keeps:
  assumes "GetEndpoint_retry n p key m f = Inr (res, f')"
    and "endpoints f k = Some (e # r)" and "e \<noteq> []"
  shows "endpoints f' k = Some (e # r)"
proof (cases "k = key")
  case False
  with GetEndpoint_retry_frame[OF assms(1)] assms(2) show ?thesis by simp
next
  case True
  with assms(2) have c: "getEndpointFromCache f key = Inr e"
    by (simp add: getEndpointFromCache_bound)
  show ?thesis
  proof (cases n)
    case 0
    with assms show ?thesis by simp
  next
    case (Suc n')
    with assms(1) have "GetEndpoint_retry (Suc n') p key m f = Inr (res, f')" by simp
    then show ?thesis
      using c assms(2,3) True by (cases rule: GetEndpoint_retry_Suc_cases) simp_all
  qed
qed

lemma GetEndpoint_retry_cache_ok:
  assumes "GetEndpoint_retry n p key m f = Inr (res, f')" and "cache_ok f"
  shows "cache_ok f'"
  using assms
proof (induction n arbitrary: f)
  case 0
  then show ?case by simp
next
  case (Suc n)
  from Suc.prems(1) show ?case
  proof (cases rule: GetEndpoint_retry_Suc_cases)
    case (hit e)
    with Suc.prems(2) show ?thesis by (simp add: cache_ok_def)
  next
    case (stored e f1)
    have "cache_ok f1"
      unfolding cache_ok_def
    proof (intro allI impI)
      fix k v assume "endpoints f1 k = Some v"
      with getEndpointFromDb_fields(5,6)[OF stored(2)] Suc.prems(2)
      show "length v = 2" by (cases "k = key") (auto simp: cache_ok_def)
    qed
    with stored show ?thesis by (simp add: cache_ok_def)
  next
    case (created e f1 f2)
    have "cache_ok f1"
      unfolding cache_ok_def
    proof (intro allI impI)
      fix k v assume "endpoints f1 k = Some v"
      with getEndpointFromDb_fields(5,6)[OF created(2)] Suc.prems(2)
      show "length v = 2" by (cases "k = key") (auto simp: cache_ok_def)
    qed
    with createFunc_ok_fields(1)[OF created(3,4)] created(6)
    show ?thesis by (simp add: cache_ok_def)
  next
    case (again f1 f2)
    have "cache_ok f1"
      unfolding cache_ok_def
    proof (intro allI impI)
      fix k v assume "endpoints f1 k = Some v"
      with getEndpointFromDb_fields(5,6)[OF again(2)] Suc.prems(2)
      show "length v = 2" by (cases "k = key") (auto simp: cache_ok_def)
    qed
    with createFunc_fail_fields(2)[OF again(3)]
    have "cache_ok (Sleep RETRY_INTERVALMS f2)" by (simp add: cache_ok_def Sleep_def)
    from Suc.IH[OF again(4) this] show ?thesis .
  qed
qed

subsection \<open>A backend that rejects provisioning\<close>

lemma rejects_create:
  assumes "\<forall>h c. createFunctionErr b h c \<noteq> None"
  shows "\<exists>err. createFunctionErr b h c = Some err"
proof -
  from assms have "createFunctionErr b h c \<noteq> None" by blast
  then show ?thesis by auto
qed

lemma rejects_trigger:
  assumes "\<forall>h c. isl (createTriggerResp b h c)"
  shows "\<exists>err. createTriggerResp b h c = Inl err"
proof -
  from assms have "isl (createTriggerResp b h c)" by blast
  then show ?thesis by (simp add: isl_def)
qed

lemma createFCFunction_rejected:
  assumes "(\<forall>h c. createFunctionErr (backend p) h c \<noteq> None)
         \<or> (\<forall>h c. isl (createTriggerResp (backend p) h c))"
  shows "\<exists>err f'. createFCFunction p f s n env = Inr (([], Some err), f')"
proof -
  let ?c1 = "FcCreateFunction s (getCreateFuncRequest p n env) (AccountId (config p))"
  show ?thesis
  proof (cases "createFunctionErr (backend p) (remote f) ?c1")
    case (Some err)
    then show ?thesis by (simp add: createFCFunction_def Let_def)
  next
    case None
    with assms rejects_create[of "backend p" "remote f" ?c1]
    have "\<forall>h c. isl (createTriggerResp (backend p) h c)" by auto
    from rejects_trigger[OF this] obtain err
      where "createTriggerResp (backend p) (remote (record_call ?c1 f))
               (FcCreateTrigger s n getHttpTrigger) = Inl err" by blast
    with None show ?thesis by (simp add: createFCFunction_def Let_def)
  qed
qed

lemma getCreateFuncRequestFc3_total:
  assumes "isFc3 p"
  shows "\<exists>r f'. getCreateFuncRequestFc3 p f n env = Inr (r, f')"
  using assms
  unfolding getCreateFuncRequestFc3_def GetFcFunc_def Let_def
  by (auto split: sum.splits)

lemma createFc3Function_rejected:
  assumes "(\<forall>h c. createFunctionErr (backend p) h c \<noteq> None)
         \<or> (\<forall>h c. isl (createTriggerResp (backend p) h c))"
    and "isFc3 p"
  shows "\<exists>err f'. createFc3Function p f n env = Inr (([], Some err), f')"
proof -
  from getCreateFuncRequestFc3_total[OF assms(2)] obtain r f1
    where g: "getCreateFuncRequestFc3 p f n env = Inr (r, f1)" by blast
  show ?thesis
  proof (cases r)
    case None
    with g show ?thesis by (simp add: createFc3Function_def)
  next
    case (Some req)
    note r = this
    show ?thesis
    proof (cases "createFunctionErr (backend p) (remote f1) (Fc3CreateFunction req)")
      case (Some err)
      with g r show ?thesis by (simp add: createFc3Function_def Let_def)
    next
      case None
      with assms(1) rejects_create[of "backend p" "remote f1" "Fc3CreateFunction req"]
      have "\<forall>h c. isl (createTriggerResp (backend p) h c)" by auto
      from rejects_trigger[OF this] obtain err
        where "createTriggerResp (backend p) (remote (record_call (Fc3CreateFunction req) f1))
                 (Fc3CreateTrigger n getHttpTriggerFc3) = Inl err" by blast
      with None g r show ?thesis by (simp add: createFc3Function_def Let_def)
    qed
  qed
qed

lemma createFunc_rejected:
  assumes "(\<forall>h c. createFunctionErr (backend p) h c \<noteq> None)
         \<or> (\<forall>h c. isl (createTriggerResp (backend p) h c))"
  shows "\<exists>f'. createFunc p f key m env = Inr ([], f')"
proof (cases "isFc3 p")
  case True
  from createFc3Function_rejected[OF assms True] obtain err f'
    where "createFc3Function p f (GetFunctionName p key) env = Inr (([], Some err), f')" by blast
  with True show ?thesis by (simp add: createFunc_def Let_def)
next
  case False
  from createFCFunction_rejected[OF assms] obtain err f'
    where "createFCFunction p f (ServiceName (config p)) (GetFunctionName p key) env
             = Inr (([], Some err), f')" by blast
  with False show ?thesis by (simp add: createFunc_def Let_def)
qed

subsection \<open>Exhausting the retry budget\<close>

text \<open>
  A deployment in which nothing resolves: no endpoint in the cache for the lookup key, a
  store that has no row for it or fails at every operation, and a backend that rejects
  every create-function call or every create-trigger call. Both attempts of \<open>GetEndpoint\<close>
  come back empty; the cache and the table of the store are as before.
\<close>

lemma rejecting_backend_exhausts_retries:
  assumes cache: "getEndpointFromCache f (GetEndpoint_key p sdModel) = Inr []"
    and store: "map_of (table (funcStore f)) (GetEndpoint_key p sdModel) = None
              \<or> (\<forall>n. faults (funcStore f) n)"
    and rejects: "(\<forall>h c. createFunctionErr (backend p) h c \<noteq> None)
              \<or> (\<forall>h c. isl (createTriggerResp (backend p) h c))"
  shows "\<exists>f1 f2 f3 f4.
           getEndpointFromDb f (GetEndpoint_key p sdModel) = Inr ([], f1)
         \<and> createFunc p f1 (GetEndpoint_key p sdModel) sdModel (getEnv p f1 sdModel) = Inr ([], f2)
         \<and> getEndpointFromDb (Sleep RETRY_INTERVALMS f2) (GetEndpoint_key p sdModel) = Inr ([], f3)
         \<and> createFunc p f3 (GetEndpoint_key p sdModel) sdModel (getEnv p f3 sdModel) = Inr ([], f4)
         \<and> GetEndpoint p f sdModel
             = Inr (([], Some ''not get sd endpoint''), Sleep RETRY_INTERVALMS f4)
         \<and> clock (Sleep RETRY_INTERVALMS f4) = clock f + 2 * RETRY_INTERVALMS
         \<and> endpoints f4 = endpoints f
         \<and> table (funcStore f4) = table (funcStore f)
         \<and> lastInvokeEndpoint f4 = lastInvokeEndpoint f"
proof -
  let ?key = "GetEndpoint_key p sdModel"
  let ?R = RETRY_INTERVALMS
  have miss: "getEndpointFromDb g ?key = Inr ([], asked g)"
    if "table (funcStore g) = table (funcStore f)" "faults (funcStore g) = faults (funcStore f)"
    for g
    using store that by (intro getEndpointFromDb_miss) auto
  define f1 where "f1 = asked f"
  have d1: "getEndpointFromDb f ?key = Inr ([], f1)"
    unfolding f1_def by (rule miss) simp_all
  from createFunc_rejected[OF rejects] obtain f2
    where k1: "createFunc p f1 ?key sdModel (getEnv p f1 sdModel) = Inr ([], f2)" by blast
  note a1 = createFunc_fail_fields[OF k1]
  define f3 where "f3 = asked (Sleep ?R f2)"
  have d2: "getEndpointFromDb (Sleep ?R f2) ?key = Inr ([], f3)"
    unfolding f3_def by (rule miss) (simp_all add: Sleep_def a1 f1_def asked_def)
  from createFunc_rejected[OF rejects] obtain f4
    where k2: "createFunc p f3 ?key sdModel (getEnv p f3 sdModel) = Inr ([], f4)" by blast
  note a2 = createFunc_fail_fields[OF k2]
  have c2: "getEndpointFromCache (Sleep ?R f2) ?key = Inr []"
    using cache by (simp add: getEndpointFromCache_def Sleep_def a1 f1_def asked_def)
  have c3: "getEndpointFromCache (Sleep ?R f4) ?key = Inr []"
    using cache by (simp add: getEndpointFromCache_def Sleep_def a1 a2 f1_def f3_def asked_def)
  have "GetEndpoint p f sdModel = Inr (([], Some ''not get sd endpoint''), Sleep ?R f4)"
    unfolding GetEndpoint_def numeral_2_eq_2
    by (simp add: cache d1 k1 c2 d2 k2)
  moreover have "clock (Sleep ?R f4) = clock f + 2 * ?R"
    by (simp add: Sleep_def a1 a2 f1_def f3_def asked_def)
  moreover have "endpoints f4 = endpoints f" "table (funcStore f4) = table (funcStore f)"
    "lastInvokeEndpoint f4 = lastInvokeEndpoint f"
    by (simp_all add: Sleep_def a1 a2 f1_def f3_def asked_def)
  ultimately show ?thesis using d1 k1 d2 k2 by blast
qed

text \<open>
  Claim C3. When on both attempts of the retry budget the cache lookup finds no endpoint,
  the store lookup comes back empty and the provisioning attempt fails (\<open>createFunc\<close>
  returns the empty endpoint), \<open>GetEndpoint\<close> sleeps \<open>RETRY_INTERVALMS\<close>, ten milliseconds,
  after the first attempt and again after the second, and then returns the empty endpoint
  with the error \<open>not get sd endpoint\<close>; the last-used endpoint is as before. That the
  cache lookup of the second attempt misses follows from the first attempt.
\<close>

theorem GetEndpoint_exhausts_retries:
  assumes key: "key = GetEndpoint_key p sdModel"
    and c1: "getEndpointFromCache f key = Inr []"
    and d1: "getEndpointFromDb f key = Inr ([], f1)"
    and k1: "createFunc p f1 key sdModel (getEnv p f1 sdModel) = Inr ([], f2)"
    and d2: "getEndpointFromDb (Sleep RETRY_INTERVALMS f2) key = Inr ([], f3)"
    and k2: "createFunc p f3 key sdModel (getEnv p f3 sdModel) = Inr ([], f4)"
  shows "getEndpointFromCache (Sleep RETRY_INTERVALMS f2) key = Inr []
       \<and> GetEndpoint p f sdModel
           = Inr (([], Some ''not get sd endpoint''), Sleep RETRY_INTERVALMS f4)
       \<and> clock (Sleep RETRY_INTERVALMS f4) = clock f + 2 * RETRY_INTERVALMS
       \<and> RETRY_INTERVALMS = 10
       \<and> lastInvokeEndpoint (Sleep RETRY_INTERVALMS f4) = lastInvokeEndpoint f"
proof -
  let ?R = RETRY_INTERVALMS
  note a1 = getEndpointFromDb_fields[OF d1]
  note b1 = createFunc_fail_fields[OF k1]
  note a2 = getEndpointFromDb_fields[OF d2]
  note b2 = createFunc_fail_fields[OF k2]
  have "endpoints f2 key = endpoints f key \<or> (\<exists>m. endpoints f2 key = Some [[], m])"
    using a1(6) b1(2) by simp
  with c1 have c2: "getEndpointFromCache (Sleep ?R f2) key = Inr []"
    by (auto simp: getEndpointFromCache_def Sleep_def)
  have "GetEndpoint p f sdModel = Inr (([], Some ''not get sd endpoint''), Sleep ?R f4)"
    unfolding GetEndpoint_def numeral_2_eq_2 key[symmetric]
    by (simp add: c1 d1 k1 c2 d2 k2)
  moreover have "clock (Sleep ?R f4) = clock f + 2 * ?R"
    by (simp add: Sleep_def a1 b1 a2 b2)
  moreover have "lastInvokeEndpoint (Sleep ?R f4) = lastInvokeEndpoint f"
    by (simp add: Sleep_def a1 b1 a2 b2)
  ultimately show ?thesis using c2 by (simp add: RETRY_INTERVALMS_def)
qed

text \<open>The example deployment with a backend that rejects every create-function call.\<close>

theorem GetEndpoint_exhausts_retries_witness:
  "getEndpointFromCache exampleManager ''modelX'' = Inr []
   \<and> map_sum id (\<lambda>(r, f'). (r, clock f'))
        (GetEndpoint
           (examplePlatform\<lparr>backend := exampleBackend\<lparr>createFunctionErr :=
              (\<lambda>h c. Some ''quota exceeded'')\<rparr>\<rparr>)
           exampleManager ''modelX'')
      = Inr (([], Some ''not get sd endpoint''), 20)"
proof -
  let ?P = "examplePlatform\<lparr>backend := exampleBackend\<lparr>createFunctionErr :=
              (\<lambda>h c. Some ''quota exceeded'')\<rparr>\<rparr>"
  have key: "''modelX'' = GetEndpoint_key ?P ''modelX''"
    by (simp add: GetEndpoint_key_def GetFlexMode_def example_defs)
  have c1: "getEndpointFromCache exampleManager ''modelX'' = Inr []"
    by (simp add: getEndpointFromCache_def example_defs)
  have store: "map_of (table (funcStore exampleManager)) (GetEndpoint_key ?P ''modelX'') = None
             \<or> (\<forall>n. faults (funcStore exampleManager) n)"
    by (simp add: example_defs)
  have rejects: "(\<forall>h c. createFunctionErr (backend ?P) h c \<noteq> None)
             \<or> (\<forall>h c. isl (createTriggerResp (backend ?P) h c))"
    by (simp add: example_defs)
  have c1': "getEndpointFromCache exampleManager (GetEndpoint_key ?P ''modelX'') = Inr []"
    using c1 key by simp
  from rejecting_backend_exhausts_retries[OF c1' store rejects]
  obtain f1 f2 f3 f4
    where d1: "getEndpointFromDb exampleManager ''modelX'' = Inr ([], f1)"
      and k1: "createFunc ?P f1 ''modelX'' ''modelX'' (getEnv ?P f1 ''modelX'') = Inr ([], f2)"
      and d2: "getEndpointFromDb (Sleep RETRY_INTERVALMS f2) ''modelX'' = Inr ([], f3)"
      and k2: "createFunc ?P f3 ''modelX'' ''modelX'' (getEnv ?P f3 ''modelX'') = Inr ([], f4)"
    unfolding key[symmetric] by blast
  from GetEndpoint_exhausts_retries[OF key c1 d1 k1 d2 k2] c1
  show ?thesis by (simp add: exampleManager_def)
qed

subsection \<open>Panics\<close>

text \<open>
  Claim C5 says that no operation panics. On the older backend generation, when the
  backend creates the function and the trigger and reports an empty trigger URL,
  \<open>createFunc\<close> reaches \<open>err.Error()\<close> with a nil error, and \<open>GetEndpoint\<close> panics. On
  the newer generation, when the function that \<open>GetFuncResource\<close> reads has no GPU
  configuration, the dereference of its fields panics in \<open>UpdateFunctionEnv\<close>.
\<close>

theorem operations_panic_on_backend_responses:
  "GetEndpoint
     (examplePlatform\<lparr>backend := exampleBackend\<lparr>createTriggerResp := (\<lambda>h c. Inr (Some []))\<rparr>\<rparr>)
     exampleManager ''modelX'' = Inl NilDereference
   \<and> UpdateFunctionEnv
       (examplePlatform\<lparr>config := exampleConfig\<lparr>ServiceName := []\<rparr>,
          backend := exampleBackend\<lparr>getFunctionFc3 :=
            (\<lambda>h c. Inr (exampleBody3\<lparr>fc3GpuConfig := None\<rparr>))\<rparr>\<rparr>)
       exampleManager ''modelX'' = Inl NilDereference"
proof
  show "GetEndpoint
     (examplePlatform\<lparr>backend := exampleBackend\<lparr>createTriggerResp := (\<lambda>h c. Inr (Some []))\<rparr>\<rparr>)
     exampleManager ''modelX'' = Inl NilDereference"
    by (simp add: example_defs resolve_defs)
  show "UpdateFunctionEnv
       (examplePlatform\<lparr>config := exampleConfig\<lparr>ServiceName := []\<rparr>,
          backend := exampleBackend\<lparr>getFunctionFc3 :=
            (\<lambda>h c. Inr (exampleBody3\<lparr>fc3GpuConfig := None\<rparr>))\<rparr>\<rparr>)
       exampleManager ''modelX'' = Inl NilDereference"
    by (simp add: example_defs UpdateFunctionEnv_def GetFuncResource_def GetFcFunc_def
        isFc3_def record_call_def GetFunctionName_def Let_def)
qed

subsection \<open>The first resolution of a key\<close>

lemma GetEndpoint_retry_hit:
  assumes "endpoints f key = Some (e # r)" and "e \<noteq> []"
  shows "GetEndpoint_retry (Suc n) p key m f = Inr ((e, None), f\<lparr>lastInvokeEndpoint := e\<rparr>)"
  using assms by (simp add: getEndpointFromCache_def)

lemma attempt_from_empty:
  assumes "endpoints f key = None" and "table (funcStore f) = []"
    and "GetEndpoint_retry (Suc n) p key m f = Inr (res, f')"
  obtains
    (created) e f2 where "createFunc p (asked f) key m (getEnv p (asked f) m) = Inr (e, f2)"
      "e \<noteq> []" "res = (e, None)" "f' = f2\<lparr>lastInvokeEndpoint := e\<rparr>"
  | (again) f2 where "createFunc p (asked f) key m (getEnv p (asked f) m) = Inr ([], f2)"
      "GetEndpoint_retry n p key m (Sleep RETRY_INTERVALMS f2) = Inr (res, f')"
proof -
  have c: "getEndpointFromCache f key = Inr []"
    using assms(1) by (simp add: getEndpointFromCache_def)
  have d: "getEndpointFromDb f key = Inr ([], asked f)"
    using assms(2) by (intro getEndpointFromDb_miss) simp
  from assms(3) show thesis
  proof (cases rule: GetEndpoint_retry_Suc_cases)
    case (hit e)
    with c show ?thesis by simp
  next
    case (stored e f1)
    with d show ?thesis by simp
  next
    case created0: (created e f1 f2)
    with d have "f1 = asked f" by simp
    with created0 show ?thesis by (intro created[of e f2]) simp_all
  next
    case again0: (again f1 f2)
    with d have "f1 = asked f" by simp
    with again0 show ?thesis by (intro again[of f2]) simp_all
  qed
qed

lemma created_binding:
  assumes "createFunc p g key m env = Inr (e, f2)" and "e \<noteq> []"
    and "table (funcStore g) = []" and "\<not> faults (funcStore g) (served (funcStore g))"
  shows "endpoints f2 key = Some [e, m]
       \<and> (\<exists>row. map_of (table (funcStore f2)) key = Some row
              \<and> assert_string row KModelServiceKey = Some key
              \<and> assert_string row KModelServiceEndPoint = Some e
              \<and> assert_string row KModelServiceSdModel = Some m)
       \<and> provisionings f2 = Suc (provisionings g)
       \<and> lastInvokeEndpoint f2 = lastInvokeEndpoint g"
  using createFunc_ok_fields[OF assms(1,2)] assms(3,4)
  by (simp add: Put_def Let_def assert_string_def)

text \<open>
  Claim C1, as amended. Starting from an empty cache and an empty store that serves every
  operation, a successful \<open>GetEndpoint\<close> returns a non-empty endpoint \<open>E\<close> and has
  sent one or two create-function calls to the backend, one for each attempt that reached
  it: exactly one when the call succeeds within its first attempt. Afterwards the cache
  holds \<open>[E, sdModel]\<close> and the store a row with endpoint \<open>E\<close>, both under the
  lookup key (the model key itself in multi-function mode when it is not empty), and \<open>E\<close>
  is the last-used endpoint. Every later \<open>GetEndpoint\<close> for the same model key returns
  \<open>E\<close> and leaves the manager, its call log and its store as they are, whatever the
  backend would answer; a resolution of any other key keeps the binding.
\<close>

theorem first_resolution_provisions:
  assumes empty_cache: "endpoints f = Map.empty"
    and empty_store: "table (funcStore f) = []"
    and working: "\<forall>n. \<not> faults (funcStore f) n"
    and success: "GetEndpoint p f sdModel = Inr ((E, None), f')"
  shows "E \<noteq> []
    \<and> (provisionings f' = provisionings f + 1 \<or> provisionings f' = provisionings f + 2)
    \<and> (GetEndpoint_retry 1 p (GetEndpoint_key p sdModel) sdModel f = Inr ((E, None), f')
         \<longrightarrow> provisionings f' = provisionings f + 1)
    \<and> endpoints f' (GetEndpoint_key p sdModel) = Some [E, sdModel]
    \<and> (\<exists>row. map_of (table (funcStore f')) (GetEndpoint_key p sdModel) = Some row
           \<and> assert_string row KModelServiceKey = Some (GetEndpoint_key p sdModel)
           \<and> assert_string row KModelServiceEndPoint = Some E
           \<and> assert_string row KModelServiceSdModel = Some sdModel)
    \<and> lastInvokeEndpoint f' = E
    \<and> (\<forall>p'. config p' = config p \<longrightarrow> GetEndpoint p' f' sdModel = Inr ((E, None), f'))
    \<and> (\<forall>p' m res g. GetEndpoint p' f' m = Inr (res, g)
          \<longrightarrow> endpoints g (GetEndpoint_key p sdModel) = Some [E, sdModel])"
proof -
  let ?key = "GetEndpoint_key p sdModel"
  let ?R = RETRY_INTERVALMS
  let ?bound = "\<lambda>h. endpoints h ?key = Some [E, sdModel]
       \<and> (\<exists>row. map_of (table (funcStore h)) ?key = Some row
              \<and> assert_string row KModelServiceKey = Some ?key
              \<and> assert_string row KModelServiceEndPoint = Some E
              \<and> assert_string row KModelServiceSdModel = Some sdModel)"
  from success have run: "GetEndpoint_retry (Suc (Suc 0)) p ?key sdModel f = Inr ((E, None), f')"
    by (simp add: GetEndpoint_def numeral_2_eq_2)
  from GetEndpoint_retry_success[OF run] have E: "E \<noteq> []" and last: "lastInvokeEndpoint f' = E"
    by simp_all
  have e0: "endpoints f ?key = None" using empty_cache by simp
  have a0: "table (funcStore (asked f)) = []"
    "\<not> faults (funcStore (asked f)) (served (funcStore (asked f)))"
    using empty_store working by (simp_all add: asked_def)
  have main: "?bound f'
      \<and> (provisionings f' = provisionings f + 1 \<or> provisionings f' = provisionings f + 2)
      \<and> (GetEndpoint_retry 1 p ?key sdModel f = Inr ((E, None), f')
            \<longrightarrow> provisionings f' = provisionings f + 1)"
    using e0 empty_store run
  proof (cases rule: attempt_from_empty)
    case (created e f2)
    from created_binding[OF created(1,2) a0] created(3,4)
    show ?thesis by (simp add: provisionings_def asked_def)
  next
    case (again f2)
    note f2 = createFunc_fail_fields[OF again(1)]
    have e1: "endpoints (Sleep ?R f2) ?key = None"
      and s1: "table (funcStore (Sleep ?R f2)) = []"
      using f2 e0 empty_store by (simp_all add: Sleep_def asked_def)
    have first: "GetEndpoint_retry 1 p ?key sdModel f = Inr (([], Some ''not get sd endpoint''), Sleep ?R f2)"
      using e0 empty_store again(1)
      by (simp add: getEndpointFromCache_def getEndpointFromDb_miss)
    from e1 s1 again(2) show ?thesis
    proof (cases rule: attempt_from_empty)
      case (created e f4)
      have a1: "table (funcStore (asked (Sleep ?R f2))) = []"
        "\<not> faults (funcStore (asked (Sleep ?R f2))) (served (funcStore (asked (Sleep ?R f2))))"
        using f2 empty_store working by (simp_all add: asked_def Sleep_def)
      from created_binding[OF created(1,2) a1] created(3,4) f2(5,6) first
      show ?thesis by (auto simp: provisionings_def asked_def Sleep_def)
    next
      case again2: (again f4)
      then show ?thesis by simp
    qed
  qed
  have again_hit: "GetEndpoint p' f' sdModel = Inr ((E, None), f')" if "config p' = config p" for p'
  proof -
    have "GetEndpoint_key p' sdModel = ?key" using that by (simp add: GetEndpoint_key_def)
    moreover have "f'\<lparr>lastInvokeEndpoint := E\<rparr> = f'" using last by simp
    ultimately show ?thesis
      using GetEndpoint_retry_hit[of f' ?key E "[sdModel]" "Suc 0" p' sdModel] main E
      by (simp add: GetEndpoint_def numeral_2_eq_2)
  qed
  have keeps: "endpoints g ?key = Some [E, sdModel]" if "GetEndpoint p' f' m = Inr (res, g)"
    for p' m res g
    using GetEndpoint_retry_keeps[OF that[unfolded GetEndpoint_def], of ?key E "[sdModel]"] main E
    by simp
  from E last main again_hit keeps show ?thesis by blast
qed

text \<open>
  The example deployment: the backend accepts the first attempt, one create-function call
  is sent, and the second call is answered from the cache.
\<close>

theorem first_resolution_provisions_witness:
  "\<exists>f'. endpoints exampleManager = Map.empty
       \<and> table (funcStore exampleManager) = []
       \<and> GetEndpoint examplePlatform exampleManager ''modelX'' = Inr ((''http://e'', None), f')
       \<and> provisionings f' = 1
       \<and> endpoints f' ''modelX'' = Some [''http://e'', ''modelX'']
       \<and> GetEndpoint examplePlatform f' ''modelX'' = Inr ((''http://e'', None), f')"
proof -
  obtain f' where s: "GetEndpoint examplePlatform exampleManager ''modelX''
                      = Inr ((''http://e'', None), f')"
    by (simp add: example_defs resolve_defs)
  then have s1: "GetEndpoint_retry 1 examplePlatform (GetEndpoint_key examplePlatform ''modelX'')
                   ''modelX'' exampleManager = Inr ((''http://e'', None), f')"
    by (simp add: example_defs resolve_defs)
  have h1: "endpoints exampleManager = Map.empty"
    and h2: "table (funcStore exampleManager) = []"
    and h3: "\<forall>n. \<not> faults (funcStore exampleManager) n"
    and k: "GetEndpoint_key examplePlatform ''modelX'' = ''modelX''"
    and z: "provisionings exampleManager = 0"
    by (simp_all add: example_defs GetEndpoint_key_def GetFlexMode_def provisionings_def)
  from first_resolution_provisions[OF h1 h2 h3 s] s1 s h1 h2 k z
  show ?thesis by auto
qed

text \<open>
  Claim C1 as stated fails when the first attempt is rejected and the retry succeeds: the
  call is successful, starts from an empty cache and store, and has invoked provisioning
  twice.
\<close>

theorem retried_resolution_provisions_twice:
  "map_sum id (\<lambda>(r, f'). (r, provisionings f'))
     (GetEndpoint
        (examplePlatform\<lparr>backend := exampleBackend\<lparr>createFunctionErr :=
           (\<lambda>h c. if h = [] then Some ''throttled'' else None)\<rparr>\<rparr>)
        exampleManager ''modelX'')
   = Inr ((''http://e'', None), 2)"
  by (simp add: example_defs resolve_defs provisionings_def)

subsection \<open>The lookup key\<close>

text \<open>
  Claim C8. In single-function mode, for every model key, and in either mode for the empty
  model key, \<open>GetEndpoint\<close> resolves the key \<open>default\<close>: it runs its loop on that key,
  answers from the cache entry of \<open>default\<close> when that holds an endpoint, and leaves the
  cache and the store at every other key as they were.
\<close>

theorem default_key_resolution:
  assumes "GetFlexMode (config p) = SingleFunc \<or> sdModel = []"
  shows "GetEndpoint_key p sdModel = ''default''
     \<and> GetEndpoint p f sdModel = GetEndpoint_retry 2 p ''default'' sdModel f
     \<and> (\<forall>e r. endpoints f ''default'' = Some (e # r) \<and> e \<noteq> []
           \<longrightarrow> GetEndpoint p f sdModel = Inr ((e, None), f\<lparr>lastInvokeEndpoint := e\<rparr>))
     \<and> (\<forall>res f' k. GetEndpoint p f sdModel = Inr (res, f') \<and> k \<noteq> ''default''
           \<longrightarrow> endpoints f' k = endpoints f k
             \<and> map_of (table (funcStore f')) k = map_of (table (funcStore f)) k)"
proof -
  from assms have k: "GetEndpoint_key p sdModel = ''default''"
    by (auto simp: GetEndpoint_key_def)
  then have g: "GetEndpoint p f sdModel = GetEndpoint_retry 2 p ''default'' sdModel f"
    by (simp add: GetEndpoint_def)
  have hit: "GetEndpoint p f sdModel = Inr ((e, None), f\<lparr>lastInvokeEndpoint := e\<rparr>)"
    if "endpoints f ''default'' = Some (e # r)" "e \<noteq> []" for e r
    using GetEndpoint_retry_hit[OF that, of "Suc 0" p sdModel] g by (simp add: numeral_2_eq_2)
  have frame: "endpoints f' k = endpoints f k
             \<and> map_of (table (funcStore f')) k = map_of (table (funcStore f)) k"
    if "GetEndpoint p f sdModel = Inr (res, f')" "k \<noteq> ''default''" for res f' k
    using GetEndpoint_retry_frame[of 2 p "''default''" sdModel f res f' k] that g by simp
  from k g hit frame show ?thesis by blast
qed

theorem default_key_resolution_witness:
  "GetFlexMode (config (examplePlatform\<lparr>config := exampleConfig\<lparr>FlexModeName := ''singleFunc''\<rparr>\<rparr>))
     = SingleFunc
   \<and> GetEndpoint_key (examplePlatform\<lparr>config := exampleConfig\<lparr>FlexModeName := ''singleFunc''\<rparr>\<rparr>)
        ''modelX'' = ''default''
   \<and> GetEndpoint (examplePlatform\<lparr>config := exampleConfig\<lparr>FlexModeName := ''singleFunc''\<rparr>\<rparr>)
        (exampleManager\<lparr>endpoints := [''default'' \<mapsto> [''http://e'', ''modelA'']]\<rparr>) ''modelX''
      = Inr ((''http://e'', None),
             exampleManager\<lparr>endpoints := [''default'' \<mapsto> [''http://e'', ''modelA'']],
                             lastInvokeEndpoint := ''http://e''\<rparr>)"
proof -
  let ?P = "examplePlatform\<lparr>config := exampleConfig\<lparr>FlexModeName := ''singleFunc''\<rparr>\<rparr>"
  let ?F = "exampleManager\<lparr>endpoints := [''default'' \<mapsto> [''http://e'', ''modelA'']]\<rparr>"
  have h: "GetFlexMode (config ?P) = SingleFunc"
    by (simp add: example_defs GetFlexMode_def)
  have b: "endpoints ?F ''default'' = Some (''http://e'' # [''modelA'']) \<and> ''http://e'' \<noteq> []"
    by simp
  from default_key_resolution[where p = ?P and sdModel = "''modelX''" and f = ?F, OF disjI1[OF h]]
    b h show ?thesis
    by (elim conjE) (drule spec[of _ "''http://e''"], drule spec[of _ "[''modelA'']"], simp)
qed

subsection \<open>An unreadable reference function\<close>

lemma GetFcFunc_unreadable:
  assumes "isFc3 p" and "getFunctionFc3 (backend p) (remote f) (Fc3GetFunction n) = Inl err"
  shows "GetFcFunc p f n = (None, record_call (Fc3GetFunction n) f)"
  using assms by (simp add: GetFcFunc_def Let_def)

text \<open>
  Claim C4, as amended. On the newer backend generation, when the reference function
  cannot be read, \<open>createFc3Function\<close> fails at once with the error
  \<open>get createFunctionRequest error\<close>: the only call it makes is the read of the reference
  function, no function or trigger is created. \<open>createFunc\<close> reports that as an empty
  endpoint, and \<open>GetEndpoint\<close> treats it like every other failed attempt: with nothing in
  the cache and the store it sleeps, reads the reference function again in its second
  attempt, and returns \<open>not get sd endpoint\<close> when its budget of two attempts is used up.
\<close>

theorem unreadable_reference_is_retried:
  assumes fc3: "isFc3 p"
    and unreadable: "\<forall>h. isl (getFunctionFc3 (backend p) h (Fc3GetFunction (ServerName (config p))))"
    and cache: "getEndpointFromCache f (GetEndpoint_key p sdModel) = Inr []"
    and store: "map_of (table (funcStore f)) (GetEndpoint_key p sdModel) = None
              \<or> (\<forall>n. faults (funcStore f) n)"
  shows "createFc3Function p f functionName env
           = Inr (([], Some ''get createFunctionRequest error''),
                  record_call (Fc3GetFunction (ServerName (config p))) f)
       \<and> createFunc p f key sdModel env
           = Inr ([], record_call (Fc3GetFunction (ServerName (config p))) f)
       \<and> (\<exists>f'. GetEndpoint p f sdModel = Inr (([], Some ''not get sd endpoint''), f')
              \<and> remote f' = remote f @ [Fc3GetFunction (ServerName (config p)),
                                         Fc3GetFunction (ServerName (config p))]
              \<and> clock f' = clock f + 2 * RETRY_INTERVALMS
              \<and> endpoints f' = endpoints f
              \<and> table (funcStore f') = table (funcStore f))"
proof -
  let ?ref = "Fc3GetFunction (ServerName (config p))"
  let ?key = "GetEndpoint_key p sdModel"
  let ?R = RETRY_INTERVALMS
  have get: "GetFcFunc p g (ServerName (config p)) = (None, record_call ?ref g)" for g
  proof -
    from unreadable have "isl (getFunctionFc3 (backend p) (remote g) ?ref)" by blast
    then obtain err where "getFunctionFc3 (backend p) (remote g) ?ref = Inl err"
      by (auto simp: isl_def)
    from GetFcFunc_unreadable[OF fc3 this] show ?thesis .
  qed
  have c3: "createFc3Function p g n e
           = Inr (([], Some ''get createFunctionRequest error''), record_call ?ref g)" for g n e
    by (simp add: createFc3Function_def getCreateFuncRequestFc3_def get)
  have cf: "createFunc p g k m e = Inr ([], record_call ?ref g)" for g k m e
    by (simp add: createFunc_def Let_def fc3 c3)
  have miss: "getEndpointFromDb g ?key = Inr ([], asked g)"
    if "table (funcStore g) = table (funcStore f)" "faults (funcStore g) = faults (funcStore f)"
    for g
    using store that by (intro getEndpointFromDb_miss) auto
  let ?f2 = "record_call ?ref (asked f)"
  let ?f4 = "record_call ?ref (asked (Sleep ?R ?f2))"
  have d1: "getEndpointFromDb f ?key = Inr ([], asked f)"
    by (rule miss) simp_all
  have d2: "getEndpointFromDb (Sleep ?R ?f2) ?key = Inr ([], asked (Sleep ?R ?f2))"
    by (rule miss) (simp_all add: Sleep_def record_call_def asked_def)
  have c2: "getEndpointFromCache (Sleep ?R ?f2) ?key = Inr []"
    using cache by (simp add: getEndpointFromCache_def Sleep_def record_call_def asked_def)
  have "GetEndpoint p f sdModel = Inr (([], Some ''not get sd endpoint''), Sleep ?R ?f4)"
    unfolding GetEndpoint_def numeral_2_eq_2
    by (simp add: cache d1 cf c2 d2)
  moreover have "remote (Sleep ?R ?f4) = remote f @ [?ref, ?ref]"
    "clock (Sleep ?R ?f4) = clock f + 2 * ?R"
    "endpoints (Sleep ?R ?f4) = endpoints f"
    "table (funcStore (Sleep ?R ?f4)) = table (funcStore f)"
    by (simp_all add: Sleep_def record_call_def asked_def)
  ultimately show ?thesis using c3 cf by blast
qed

theorem unreadable_reference_is_retried_witness:
  "isFc3 (examplePlatform\<lparr>config := exampleConfig\<lparr>ServiceName := []\<rparr>,
            backend := exampleBackend\<lparr>getFunctionFc3 := (\<lambda>h c. Inl ''FunctionNotFound'')\<rparr>\<rparr>)
   \<and> createFunc (examplePlatform\<lparr>config := exampleConfig\<lparr>ServiceName := []\<rparr>,
            backend := exampleBackend\<lparr>getFunctionFc3 := (\<lambda>h c. Inl ''FunctionNotFound'')\<rparr>\<rparr>)
        exampleManager ''modelX'' ''modelX'' []
       = Inr ([], exampleManager\<lparr>remote := [Fc3GetFunction ''sd-proxy'']\<rparr>)"
proof -
  let ?P = "examplePlatform\<lparr>config := exampleConfig\<lparr>ServiceName := []\<rparr>,
            backend := exampleBackend\<lparr>getFunctionFc3 := (\<lambda>h c. Inl ''FunctionNotFound'')\<rparr>\<rparr>"
  have h1: "isFc3 ?P" by (simp add: isFc3_def example_defs)
  have h2: "\<forall>h. isl (getFunctionFc3 (backend ?P) h (Fc3GetFunction (ServerName (config ?P))))"
    by (simp add: example_defs)
  have h3: "getEndpointFromCache exampleManager (GetEndpoint_key ?P ''modelX'') = Inr []"
    by (simp add: getEndpointFromCache_def example_defs)
  have h4: "map_of (table (funcStore exampleManager)) (GetEndpoint_key ?P ''modelX'') = None
              \<or> (\<forall>n. faults (funcStore exampleManager) n)"
    by (simp add: example_defs)
  from unreadable_reference_is_retried[OF h1 h2 h3 h4, of "''sd_modelX''" "[]" "''modelX''"] h1
  show ?thesis by (simp add: record_call_def example_defs)
qed

text \<open>
  Claim C4 as stated fails: with an unreadable reference function \<open>GetEndpoint\<close> does
  retry the provisioning attempt, and the log holds two reads of the reference function.
\<close>

theorem unreadable_reference_second_attempt:
  "map_sum id (\<lambda>(r, f'). (r, remote f'))
     (GetEndpoint
        (examplePlatform\<lparr>config := exampleConfig\<lparr>ServiceName := []\<rparr>,
            backend := exampleBackend\<lparr>getFunctionFc3 := (\<lambda>h c. Inl ''FunctionNotFound'')\<rparr>\<rparr>)
        exampleManager ''modelX'')
   = Inr (([], Some ''not get sd endpoint''),
          [Fc3GetFunction ''sd-proxy'', Fc3GetFunction ''sd-proxy''])"
  by (simp add: example_defs resolve_defs)

subsection \<open>Reloading the cache from the store\<close>

lemma map_of_project:
  "map_of (project cols r) c = (if c \<in> set cols then map_of r c else None)"
  by (induction r) (auto simp: project_def)

lemma assert_string_project:
  "c \<in> set cols \<Longrightarrow> assert_string (project cols r) c = assert_string r c"
  by (simp add: assert_string_def map_of_project)

lemma loadFunc_rows_shape:
  assumes "loadFunc_rows rows f = Inr f'"
  shows "f' = f\<lparr>endpoints := fold bind_row rows (endpoints f),
                lastInvokeEndpoint := (if lastInvokeEndpoint f = [] then first_endpoint rows
                                       else lastInvokeEndpoint f)\<rparr>"
  using assms
proof (induction rows arbitrary: f)
  case Nil
  then show ?case by simp
next
  case (Cons r rows)
  from Cons.prems obtain k e m where a: "assert_string r KModelServiceKey = Some k"
    "assert_string r KModelServiceEndPoint = Some e" "assert_string r KModelServiceSdModel = Some m"
    by (auto split: option.splits simp: Let_def)
  have b: "bind_row r (endpoints f) = (endpoints f)(k \<mapsto> [e, m])"
    using a by (simp add: bind_row_def)
  show ?case
  proof (cases "lastInvokeEndpoint f = []")
    case True
    let ?h = "f\<lparr>lastInvokeEndpoint := e, endpoints := (endpoints f)(k \<mapsto> [e, m])\<rparr>"
    from Cons.prems a True have "loadFunc_rows rows ?h = Inr f'" by (simp add: Let_def)
    from Cons.IH[OF this] show ?thesis using a True by (cases "e = []") (simp_all add: b fun_upd_def)
  next
    case False
    let ?h = "f\<lparr>endpoints := (endpoints f)(k \<mapsto> [e, m])\<rparr>"
    from Cons.prems a False have "loadFunc_rows rows ?h = Inr f'" by (simp add: Let_def)
    from Cons.IH[OF this] show ?thesis using a False by (simp add: b fun_upd_def)
  qed
qed

lemma fold_bind_row_ok:
  assumes "\<forall>key val. c key = Some val \<longrightarrow> length val = 2"
  shows "\<forall>key val. fold bind_row rows c key = Some val \<longrightarrow> length val = 2"
  using assms
proof (induction rows arbitrary: c)
  case Nil
  then show ?case by simp
next
  case (Cons r rows)
  have "\<forall>key val. bind_row r c key = Some val \<longrightarrow> length val = 2"
    using Cons.prems by (auto simp: bind_row_def)
  from Cons.IH[OF this] show ?case by simp
qed

lemma loadFunc_rows_cache_ok:
  assumes "loadFunc_rows rows f = Inr f'" and "cache_ok f"
  shows "cache_ok f'"
  using loadFunc_rows_shape[OF assms(1)] fold_bind_row_ok[of "endpoints f" rows] assms(2)
  by (simp add: cache_ok_def)

lemma bind_row_project:
  assumes "KModelServiceKey \<in> set cols" "KModelServiceEndPoint \<in> set cols"
    "KModelServiceSdModel \<in> set cols"
  shows "bind_row (project cols r) = bind_row r"
  using assms by (simp add: bind_row_def fun_eq_iff assert_string_project)

lemma first_endpoint_project:
  assumes "KModelServiceEndPoint \<in> set cols"
  shows "first_endpoint (map (project cols) rs) = first_endpoint rs"
  using assms by (induction rs) (auto simp: assert_string_project split: option.splits)

lemma fold_bind_row_project:
  assumes "KModelServiceKey \<in> set cols" "KModelServiceEndPoint \<in> set cols"
    "KModelServiceSdModel \<in> set cols"
  shows "fold bind_row (map (project cols) rs) c = fold bind_row rs c"
  using assms by (induction rs arbitrary: c) (simp_all add: bind_row_project)

lemma loadFunc_shape:
  assumes "loadFunc f = Inr f'"
  shows "f' = (asked f)\<lparr>endpoints := fold bind_row (listed (funcStore f)) (endpoints f),
                lastInvokeEndpoint := (if lastInvokeEndpoint f = []
                                       then first_endpoint (listed (funcStore f))
                                       else lastInvokeEndpoint f)\<rparr>"
proof (cases "faults (funcStore f) (served (funcStore f))")
  case True
  with assms have "f' = asked f"
    by (auto simp: loadFunc_def ListAll_def Let_def asked_def)
  with True show ?thesis
    by (simp add: listed_def asked_def)
next
  case False
  let ?cols = "[KModelServiceKey, KModelServiceEndPoint, KModelServiceSdModel, KModelServerImage]"
  have m: "map snd (map (\<lambda>(k, r). (k, project ?cols r)) (table (funcStore f)))
         = map (project ?cols) (map snd (table (funcStore f)))"
    by (induction "table (funcStore f)") auto
  from assms False
  have "loadFunc_rows (map (project ?cols) (map snd (table (funcStore f)))) (asked f) = Inr f'"
    by (simp add: loadFunc_def ListAll_def Let_def asked_def m del: map_map)
  from loadFunc_rows_shape[OF this] False show ?thesis
    by (simp add: listed_def asked_def fold_bind_row_project first_endpoint_project del: map_map)
qed

lemma loadFunc_cache_ok:
  assumes "loadFunc f = Inr f'" and "cache_ok f"
  shows "cache_ok f'"
  using loadFunc_shape[OF assms(1)] fold_bind_row_ok[of "endpoints f" "listed (funcStore f)"] assms(2)
  by (simp add: cache_ok_def)

subsection \<open>Refreshing the environment of every function\<close>

lemma reads_append: "reads (xs @ ys) = reads xs @ reads ys"
  by (simp add: reads_def map_filter_def)

lemma GetFcFunc_reads:
  assumes "GetFcFunc p f n = (r, f')"
  shows "\<exists>c. f' = f\<lparr>remote := remote f @ [c]\<rparr> \<and> getName c = Some n"
  using assms
  unfolding GetFcFunc_def Let_def record_call_def
  by (auto split: sum.splits if_splits)

lemma GetFuncResource_reads:
  assumes "GetFuncResource p f n = Inr (r, f')"
  shows "\<exists>c. f' = f\<lparr>remote := remote f @ [c]\<rparr> \<and> getName c = Some n"
proof -
  obtain r0 f0 where g: "GetFcFunc p f n = (r0, f0)" by (cases "GetFcFunc p f n")
  from assms g have "f' = f0"
    unfolding GetFuncResource_def
    by (auto split: option.splits FcFunc.splits)
  with GetFcFunc_reads[OF g] show ?thesis by simp
qed

lemma UpdateFunctionEnv_reads:
  assumes "UpdateFunctionEnv p f key = Inr (r, f')"
  shows "\<exists>cs. f' = f\<lparr>remote := remote f @ cs\<rparr> \<and> reads cs = [GetFunctionName p key]"
proof -
  from assms obtain r0 f0 where g: "GetFuncResource p f (GetFunctionName p key) = Inr (r0, f0)"
    unfolding UpdateFunctionEnv_def Let_def
    by (cases "GetFuncResource p f (GetFunctionName p key)") auto
  from GetFuncResource_reads[OF g] obtain c
    where c: "f0 = f\<lparr>remote := remote f @ [c]\<rparr>" "getName c = Some (GetFunctionName p key)"
    by blast
  from assms g have "f' = f0 \<or> (\<exists>u. f' = f0\<lparr>remote := remote f0 @ [u]\<rparr> \<and> getName u = None)"
    unfolding UpdateFunctionEnv_def Let_def record_call_def
    by (auto split: option.splits)
  then show ?thesis
  proof
    assume "f' = f0"
    with c have "f' = f\<lparr>remote := remote f @ [c]\<rparr> \<and> reads [c] = [GetFunctionName p key]"
      by (simp add: reads_def map_filter_def)
    then show ?thesis by blast
  next
    assume "\<exists>u. f' = f0\<lparr>remote := remote f0 @ [u]\<rparr> \<and> getName u = None"
    then obtain u where "f' = f0\<lparr>remote := remote f0 @ [u]\<rparr>" "getName u = None" by blast
    with c have "f' = f\<lparr>remote := remote f @ [c, u]\<rparr> \<and> reads [c, u] = [GetFunctionName p key]"
      by (simp add: reads_def map_filter_def)
    then show ?thesis by blast
  qed
qed

lemma UpdateAllFunctionEnv_keys_done:
  assumes "UpdateAllFunctionEnv_keys p keys f = Inr (None, f')"
  shows "\<exists>cs. f' = f\<lparr>remote := remote f @ cs\<rparr> \<and> reads cs = map (GetFunctionName p) keys"
  using assms
proof (induction keys arbitrary: f)
  case Nil
  then have "f' = f\<lparr>remote := remote f @ []\<rparr> \<and> reads [] = map (GetFunctionName p) []"
    by (simp add: reads_def map_filter_def)
  then show ?case by blast
next
  case (Cons k keys)
  from Cons.prems obtain f1 where u: "UpdateFunctionEnv p f k = Inr (None, f1)"
    and rest: "UpdateAllFunctionEnv_keys p keys f1 = Inr (None, f')"
    by (auto split: sum.splits option.splits)
  from UpdateFunctionEnv_reads[OF u] obtain cs
    where cs: "f1 = f\<lparr>remote := remote f @ cs\<rparr>" "reads cs = [GetFunctionName p k]" by blast
  from Cons.IH[OF rest] obtain ds
    where ds: "f' = f1\<lparr>remote := remote f1 @ ds\<rparr>" "reads ds = map (GetFunctionName p) keys"
    by blast
  from cs ds have "f' = f\<lparr>remote := remote f @ (cs @ ds)\<rparr>
      \<and> reads (cs @ ds) = map (GetFunctionName p) (k # keys)"
    by (simp add: reads_append)
  then show ?case by blast
qed


lemma UpdateAllFunctionEnv_keys_failed:
  assumes "UpdateAllFunctionEnv_keys p keys f = Inr (Some err, f')"
  shows "\<exists>us k vs g. keys = us @ k # vs
           \<and> UpdateAllFunctionEnv_keys p us f = Inr (None, g)
           \<and> UpdateFunctionEnv p g k = Inr (Some err, f')"
  using assms
proof (induction keys arbitrary: f)
  case Nil
  then show ?case by simp
next
  case (Cons k keys)
  from Cons.prems obtain r f1 where u: "UpdateFunctionEnv p f k = Inr (r, f1)"
    by (cases "UpdateFunctionEnv p f k") auto
  show ?case
  proof (cases r)
    case (Some e)
    with Cons.prems u have "k # keys = [] @ k # keys
        \<and> UpdateAllFunctionEnv_keys p [] f = Inr (None, f)
        \<and> UpdateFunctionEnv p f k = Inr (Some err, f')" by simp
    then show ?thesis by blast
  next
    case None
    with Cons.prems u have "UpdateAllFunctionEnv_keys p keys f1 = Inr (Some err, f')" by simp
    from Cons.IH[OF this] obtain us k' vs g where x: "keys = us @ k' # vs"
      "UpdateAllFunctionEnv_keys p us f1 = Inr (None, g)"
      "UpdateFunctionEnv p g k' = Inr (Some err, f')" by blast
    with u None have "k # keys = (k # us) @ k' # vs
        \<and> UpdateAllFunctionEnv_keys p (k # us) f = Inr (None, g)
        \<and> UpdateFunctionEnv p g k' = Inr (Some err, f')" by simp
    then show ?thesis by blast
  qed
qed




subsection \<open>The invariant of the cache\<close>

lemma getEndpointFromDb_cache_ok:
  assumes "getEndpointFromDb f key = Inr (e, f')" and "cache_ok f"
  shows "cache_ok f'"
  unfolding cache_ok_def
proof (intro allI impI)
  fix k v assume "endpoints f' k = Some v"
  with getEndpointFromDb_fields(5,6)[OF assms(1)] assms(2)
  show "length v = 2" by (cases "k = key") (auto simp: cache_ok_def)
qed

lemma createFunc_cache_ok:
  assumes "createFunc p f key m env = Inr (e, f')" and "cache_ok f"
  shows "cache_ok f'"
proof (cases "e = []")
  case True
  with assms createFunc_fail_fields(2)[of p f key m env f'] show ?thesis
    by (simp add: cache_ok_def)
next
  case False
  with assms createFunc_ok_fields(1)[of p f key m env e f'] show ?thesis
    by (simp add: cache_ok_def)
qed

lemma InitFuncManager_cache_ok:
  assumes "InitFuncManager store err now = Inr (r, f0)"
  shows "cache_ok f0"
proof -
  let ?f = "\<lparr>endpoints = Map.empty, funcStore = store, lastInvokeEndpoint = [],
               remote = [], clock = now\<rparr>"
  have ok: "cache_ok ?f" by (simp add: cache_ok_def)
  show ?thesis
  proof (cases err)
    case (Some e)
    with assms ok show ?thesis by (auto simp: InitFuncManager_def)
  next
    case None
    with assms have "loadFunc ?f = Inr f0"
      by (auto simp: InitFuncManager_def split: sum.splits)
    from loadFunc_cache_ok[OF this ok] show ?thesis .
  qed
qed

lemma UpdateAllFunctionEnv_keys_shape:
  assumes "UpdateAllFunctionEnv_keys p keys f = Inr (r, f')"
  shows "\<exists>cs. f' = f\<lparr>remote := remote f @ cs\<rparr>"
proof (cases r)
  case None
  with UpdateAllFunctionEnv_keys_done[of p keys f f'] assms show ?thesis by blast
next
  case (Some err)
  with UpdateAllFunctionEnv_keys_failed[of p keys f err f'] assms
  obtain us k vs g where g: "UpdateAllFunctionEnv_keys p us f = Inr (None, g)"
    "UpdateFunctionEnv p g k = Inr (Some err, f')" by blast
  from UpdateAllFunctionEnv_keys_done[OF g(1)] obtain cs
    where cs: "g = f\<lparr>remote := remote f @ cs\<rparr>" by blast
  from UpdateFunctionEnv_reads[OF g(2)] obtain ds
    where ds: "f' = g\<lparr>remote := remote g @ ds\<rparr>" by blast
  from cs ds have "f' = f\<lparr>remote := remote f @ (cs @ ds)\<rparr>" by simp
  then show ?thesis by blast
qed

lemma UpdateAllFunctionEnv_cache_ok:
  assumes "UpdateAllFunctionEnv p keys f = Inr (r, f')" and "cache_ok f"
  shows "cache_ok f'"
proof -
  from assms(1) obtain f1 where l: "loadFunc f = Inr f1"
    and u: "UpdateAllFunctionEnv_keys p keys f1 = Inr (r, f')"
    by (auto simp: UpdateAllFunctionEnv_def split: sum.splits)
  from UpdateAllFunctionEnv_keys_shape[OF u] loadFunc_cache_ok[OF l assms(2)]
  show ?thesis by (auto simp: cache_ok_def)
qed

lemma getEndpointFromCache_total:
  assumes "cache_ok f"
  shows "\<exists>e. getEndpointFromCache f key = Inr e"
proof (cases "endpoints f key")
  case None
  then show ?thesis by (simp add: getEndpointFromCache_def)
next
  case (Some v)
  with assms have "length v = 2" by (simp add: cache_ok_def)
  then obtain e r where "v = e # r" by (cases v) auto
  with Some show ?thesis by (simp add: getEndpointFromCache_def)
qed

text \<open>
  Claim C10. Every value of the cache is a slice of two strings: the manager that
  \<open>InitFuncManager\<close> builds has the property, and \<open>loadFunc\<close>, \<open>getEndpointFromDb\<close> and
  \<open>createFunc\<close>, the three writers of the map, keep it, writing the endpoint at index 0 and
  the model at index 1; so do \<open>GetEndpoint\<close> and \<open>UpdateAllFunctionEnv\<close>, which call them.
  Under the invariant the read of element 0 in \<open>getEndpointFromCache\<close> is in bounds: the
  function returns for every key, and so does \<open>GetLastInvokeEndpoint\<close>.
\<close>

theorem cache_values_are_pairs:
  "(\<forall>store err now r f0. InitFuncManager store err now = Inr (r, f0) \<longrightarrow> cache_ok f0)
   \<and> (cache_ok f \<longrightarrow>
        (\<forall>f'. loadFunc f = Inr f' \<longrightarrow> cache_ok f')
      \<and> (\<forall>key e f'. getEndpointFromDb f key = Inr (e, f')
            \<longrightarrow> cache_ok f' \<and> (e \<noteq> [] \<longrightarrow> (\<exists>m. endpoints f' key = Some [e, m])))
      \<and> (\<forall>p key m env e f'. createFunc p f key m env = Inr (e, f')
            \<longrightarrow> cache_ok f' \<and> (e \<noteq> [] \<longrightarrow> endpoints f' key = Some [e, m]))
      \<and> (\<forall>p m res f'. GetEndpoint p f m = Inr (res, f') \<longrightarrow> cache_ok f')
      \<and> (\<forall>p keys res f'. UpdateAllFunctionEnv p keys f = Inr (res, f') \<longrightarrow> cache_ok f')
      \<and> (\<forall>key. \<exists>e. getEndpointFromCache f key = Inr e)
      \<and> (\<forall>m. \<exists>e. GetLastInvokeEndpoint f m = Inr (e, f\<lparr>lastInvokeEndpoint := e\<rparr>)))"
proof -
  have init: "\<forall>store err now r f0. InitFuncManager store err now = Inr (r, f0) \<longrightarrow> cache_ok f0"
    using InitFuncManager_cache_ok by blast
  have rest: "(\<forall>f'. loadFunc f = Inr f' \<longrightarrow> cache_ok f')
      \<and> (\<forall>key e f'. getEndpointFromDb f key = Inr (e, f')
            \<longrightarrow> cache_ok f' \<and> (e \<noteq> [] \<longrightarrow> (\<exists>m. endpoints f' key = Some [e, m])))
      \<and> (\<forall>p key m env e f'. createFunc p f key m env = Inr (e, f')
            \<longrightarrow> cache_ok f' \<and> (e \<noteq> [] \<longrightarrow> endpoints f' key = Some [e, m]))
      \<and> (\<forall>p m res f'. GetEndpoint p f m = Inr (res, f') \<longrightarrow> cache_ok f')
      \<and> (\<forall>p keys res f'. UpdateAllFunctionEnv p keys f = Inr (res, f') \<longrightarrow> cache_ok f')
      \<and> (\<forall>key. \<exists>e. getEndpointFromCache f key = Inr e)
      \<and> (\<forall>m. \<exists>e. GetLastInvokeEndpoint f m = Inr (e, f\<lparr>lastInvokeEndpoint := e\<rparr>))"
    if ok: "cache_ok f"
  proof (intro conjI allI impI)
    fix f' assume "loadFunc f = Inr f'"
    from loadFunc_cache_ok[OF this ok] show "cache_ok f'" .
  next
    fix key e f' assume a: "getEndpointFromDb f key = Inr (e, f')"
    from getEndpointFromDb_cache_ok[OF a ok] show "cache_ok f'" .
    assume "e \<noteq> []"
    from getEndpointFromDb_fields(7)[OF a this] show "\<exists>m. endpoints f' key = Some [e, m]" .
  next
    fix p key m env e f' assume a: "createFunc p f key m env = Inr (e, f')"
    from createFunc_cache_ok[OF a ok] show "cache_ok f'" .
    assume "e \<noteq> []"
    from createFunc_ok_fields(1)[OF a this] show "endpoints f' key = Some [e, m]" by simp
  next
    fix p m res f' assume "GetEndpoint p f m = Inr (res, f')"
    then show "cache_ok f'"
      using GetEndpoint_retry_cache_ok[of 2 p "GetEndpoint_key p m" m f res f'] ok
      by (simp add: GetEndpoint_def)
  next
    fix p keys res f' assume "UpdateAllFunctionEnv p keys f = Inr (res, f')"
    from UpdateAllFunctionEnv_cache_ok[OF this ok] show "cache_ok f'" .
  next
    fix key show "\<exists>e. getEndpointFromCache f key = Inr e"
      using getEndpointFromCache_total[OF ok] .
  next
    fix m
    show "\<exists>e. GetLastInvokeEndpoint f m = Inr (e, f\<lparr>lastInvokeEndpoint := e\<rparr>)"
    proof (cases m)
      case None
      then show ?thesis by (simp add: GetLastInvokeEndpoint_def)
    next
      case (Some k)
      from getEndpointFromCache_total[OF ok, of k] obtain e
        where "getEndpointFromCache f k = Inr e" by blast
      with Some show ?thesis by (simp add: GetLastInvokeEndpoint_def)
    qed
  qed
  from init rest show ?thesis by blast
qed

theorem cache_values_are_pairs_witness:
  "cache_ok exampleManager
   \<and> (\<exists>f'. GetEndpoint examplePlatform exampleManager ''modelX'' = Inr ((''http://e'', None), f')
          \<and> cache_ok f'
          \<and> getEndpointFromCache f' ''modelX'' = Inr ''http://e'')"
proof -
  have ok: "cache_ok exampleManager" by (simp add: cache_ok_def example_defs)
  obtain f' where s: "GetEndpoint examplePlatform exampleManager ''modelX''
                      = Inr ((''http://e'', None), f')"
    and c: "getEndpointFromCache f' ''modelX'' = Inr ''http://e''"
    by (simp add: example_defs resolve_defs)
  from cache_values_are_pairs[of exampleManager, THEN conjunct2, rule_format, OF ok]
  have "\<forall>p m res f'. GetEndpoint p exampleManager m = Inr (res, f') \<longrightarrow> cache_ok f'"
    by blast
  with s have "cache_ok f'" by blast
  with ok s c show ?thesis by blast
qed

subsection \<open>The last-used endpoint\<close>





subsection \<open>Updating resources in a batch\<close>

lemma length_replies: "length (replies b h cs) = length cs"
  by (induction cs arbitrary: h) simp_all

lemma replies_in_range:
  "r \<in> set (replies b h cs) \<Longrightarrow> \<exists>h' c. r = updateFunctionErr b h' c"
  by (induction cs arbitrary: h) auto

lemma remote_record_call: "remote (record_call c f) = remote f @ [c]"
  by (simp add: record_call_def)

lemma record_call_overwritten: "(record_call c f)\<lparr>remote := cs\<rparr> = f\<lparr>remote := cs\<rparr>"
  by (simp add: record_call_def)

lemma accepted_Cons:
  "accepted ((k, ro) # resources) (r # rs)
     = (if r = None then k # accepted resources rs else accepted resources rs)"
  by (simp add: accepted_def)

lemma rejected_Cons:
  "rejected p ((k, ro) # resources) (r # rs)
     = (if r = None then rejected p resources rs
        else GetFunctionName p k # rejected p resources rs)"
  by (simp add: rejected_def)

lemma messages_Cons:
  "messages (r # rs) = (case r of None \<Rightarrow> messages rs | Some e \<Rightarrow> e # messages rs)"
  by (cases r) (simp_all add: messages_def)

lemma UpdateFunctionResource_loop_result:
  assumes "\<forall>(k, r) \<in> set resources. r \<noteq> None"
  shows "UpdateFunctionResource_loop p resources s0 fl0 e0 f =
           Inr ((s0 @ accepted resources (replies (backend p) (remote f) (updateCalls p resources)),
                 fl0 @ rejected p resources (replies (backend p) (remote f) (updateCalls p resources)),
                 e0 @ messages (replies (backend p) (remote f) (updateCalls p resources))),
                f\<lparr>remote := remote f @ updateCalls p resources\<rparr>)"
  using assms
proof (induction resources arbitrary: s0 fl0 e0 f)
  case Nil
  then show ?case by (simp add: accepted_def rejected_def messages_def updateCalls_def)
next
  case (Cons x resources)
  obtain k ro where x: "x = (k, ro)" by (cases x)
  with Cons.prems obtain r where ro: "ro = Some r" by auto
  let ?c = "updateResourceCall p (GetFunctionName p k) r"
  have calls: "updateCalls p ((k, Some r) # resources) = ?c # updateCalls p resources"
    by (simp add: updateCalls_def)
  from Cons.prems have rest: "\<forall>(k, r) \<in> set resources. r \<noteq> None" by simp
  note IH = Cons.IH[OF rest, of _ _ _ "record_call ?c f"]
  show ?case
    unfolding x ro
    by (cases "updateFunctionErr (backend p) (remote f) ?c")
       (simp_all add: calls IH Let_def accepted_Cons rejected_Cons messages_Cons
          remote_record_call record_call_overwritten)
qed

lemma length_outcomes:
  "length rs = length resources \<Longrightarrow>
   length (rejected p resources rs) = length (messages rs)
   \<and> length (accepted resources rs) + length (rejected p resources rs) = length resources"
proof (induction resources arbitrary: rs)
  case Nil
  then show ?case by (simp add: accepted_def rejected_def messages_def)
next
  case (Cons x resources)
  then obtain r rs' where rs: "rs = r # rs'" by (cases rs) auto
  with Cons.prems have "length rs' = length resources" by simp
  from Cons.IH[OF this] rs show ?case
    by (cases r) (simp_all add: accepted_def rejected_def messages_def)
qed

lemma outcome_of_entry:
  assumes "length rs = length resources" and "i < length resources"
  shows "(rs ! i = None \<longrightarrow> fst (resources ! i) \<in> set (accepted resources rs))
       \<and> (rs ! i \<noteq> None \<longrightarrow> GetFunctionName p (fst (resources ! i)) \<in> set (rejected p resources rs)
                              \<and> the (rs ! i) \<in> set (messages rs))"
proof -
  from assms have z: "(resources ! i, rs ! i) \<in> set (zip resources rs)"
    by (auto simp: set_zip)
  from assms have m: "rs ! i \<in> set rs" by simp
  show ?thesis
  proof (intro conjI impI)
    assume "rs ! i = None"
    with z show "fst (resources ! i) \<in> set (accepted resources rs)"
      by (force simp: accepted_def)
  next
    assume "rs ! i \<noteq> None"
    with z show "GetFunctionName p (fst (resources ! i)) \<in> set (rejected p resources rs)"
      by (force simp: rejected_def)
  next
    assume "rs ! i \<noteq> None"
    with m show "the (rs ! i) \<in> set (messages rs)"
      by (force simp: messages_def)
  qed
qed

text \<open>
  Claim C6, as amended. For a batch in which every key has a resource spec,
  \<open>UpdateFunctionResource\<close> sends one update call for every entry, whatever the backend
  answered to the others, and returns. Every entry lands in exactly one result slice: its
  key in the success slice when the backend accepted its call, and otherwise the name of
  its function (not the key) in the failure slice, with the backend's message in the
  error slice. The failure and error slices have the same length, the success and failure
  slices together have the length of the batch, and the messages are non-empty when the
  backend's error messages are.
\<close>

theorem UpdateFunctionResource_reports_each_entry:
  assumes nonnil: "\<forall>(k, r) \<in> set resources. r \<noteq> None"
    and calls: "calls = updateCalls p resources"
    and rs: "rs = replies (backend p) (remote f) calls"
  shows "UpdateFunctionResource p f resources
           = Inr ((accepted resources rs, rejected p resources rs, messages rs),
                  f\<lparr>remote := remote f @ calls\<rparr>)
    \<and> length calls = length resources
    \<and> length (rejected p resources rs) = length (messages rs)
    \<and> length (accepted resources rs) + length (rejected p resources rs) = length resources
    \<and> (\<forall>i < length resources.
          (rs ! i = None \<longrightarrow> fst (resources ! i) \<in> set (accepted resources rs))
        \<and> (rs ! i \<noteq> None
             \<longrightarrow> GetFunctionName p (fst (resources ! i)) \<in> set (rejected p resources rs)
               \<and> the (rs ! i) \<in> set (messages rs)))
    \<and> ((\<forall>h c. updateFunctionErr (backend p) h c \<noteq> Some [])
          \<longrightarrow> (\<forall>e \<in> set (messages rs). e \<noteq> []))"
proof -
  have len: "length rs = length resources" "length calls = length resources"
    by (simp_all add: rs calls length_replies updateCalls_def)
  have run: "UpdateFunctionResource p f resources
           = Inr ((accepted resources rs, rejected p resources rs, messages rs),
                  f\<lparr>remote := remote f @ calls\<rparr>)"
    using UpdateFunctionResource_loop_result[OF nonnil, of p "[]" "[]" "[]" f]
    by (simp add: UpdateFunctionResource_def rs calls)
  have msgs: "\<forall>e \<in> set (messages rs). e \<noteq> []"
    if "\<forall>h c. updateFunctionErr (backend p) h c \<noteq> Some []"
  proof
    fix e assume "e \<in> set (messages rs)"
    then obtain r where r: "r \<in> set rs" "r \<noteq> None" "e = the r"
      by (auto simp: messages_def)
    from replies_in_range[OF r(1)[unfolded rs]] obtain h c
      where "r = updateFunctionErr (backend p) h c" by blast
    with that r show "e \<noteq> []" by (cases r) auto
  qed
  from run len length_outcomes[OF len(1), of p] outcome_of_entry[OF len(1), of _ p] msgs
  show ?thesis by blast
qed

text \<open>A batch of two on a backend that rejects the function of key \<open>B\<close>.\<close>

theorem UpdateFunctionResource_reports_each_entry_witness:
  "UpdateFunctionResource
     (examplePlatform\<lparr>backend := exampleBackend\<lparr>updateFunctionErr :=
        (\<lambda>h c. case c of
                  FcUpdateFunction s n r \<Rightarrow>
                    if n = ''sd_B'' then Some ''invalid memory size'' else None
                | _ \<Rightarrow> None)\<rparr>\<rparr>)
     exampleManager
     [(''B'', Some exampleResource), (''A'', Some exampleResource)]
   = Inr (([''A''], [''sd_B''], [''invalid memory size'']),
          exampleManager\<lparr>remote := remote exampleManager @
             updateCalls
               (examplePlatform\<lparr>backend := exampleBackend\<lparr>updateFunctionErr :=
                  (\<lambda>h c. case c of
                            FcUpdateFunction s n r \<Rightarrow>
                              if n = ''sd_B'' then Some ''invalid memory size'' else None
                          | _ \<Rightarrow> None)\<rparr>\<rparr>)
               [(''B'', Some exampleResource), (''A'', Some exampleResource)]\<rparr>)"
proof -
  let ?P = "examplePlatform\<lparr>backend := exampleBackend\<lparr>updateFunctionErr :=
           (\<lambda>h c. case c of
                     FcUpdateFunction s n r \<Rightarrow>
                       if n = ''sd_B'' then Some ''invalid memory size'' else None
                   | _ \<Rightarrow> None)\<rparr>\<rparr>"
  let ?R = "[(''B'', Some exampleResource), (''A'', Some exampleResource)]"
  have n: "\<forall>(k, r) \<in> set ?R. r \<noteq> None" by simp
  have ev: "replies (backend ?P) (remote exampleManager) (updateCalls ?P ?R)
              = [Some ''invalid memory size'', None]"
    by (simp add: updateCalls_def updateResourceCall_def isFc3_def GetFunctionName_def
        example_defs)
  note t = UpdateFunctionResource_reports_each_entry
             [OF n refl refl, of ?P exampleManager, THEN conjunct1]
  show ?thesis
    using t[unfolded ev]
    by (simp add: accepted_def rejected_def messages_def GetFunctionName_def examplePlatform_def)
qed

text \<open>
  Claim C6 as stated fails on the failure list: the rejected key \<open>B\<close> is not in it, the
  function name \<open>sd_B\<close> is.
\<close>

theorem rejected_key_is_listed_by_function_name:
  "map_sum id fst
     (UpdateFunctionResource
        (examplePlatform\<lparr>backend := exampleBackend\<lparr>updateFunctionErr :=
           (\<lambda>h c. Some ''invalid memory size'')\<rparr>\<rparr>)
        exampleManager [(''B'', Some exampleResource)])
   = Inr ([], [''sd_B''], [''invalid memory size''])"
  by (simp add: UpdateFunctionResource_def Let_def GetFunctionName_def example_defs)

end
